theory Spec2Isabelle
  imports Main "HOL-Library.Multiset"
begin

section \<open>Data frames\<close>

text \<open>
  The pipeline is written against pandas data frames. A frame is modelled as its ordered
  list of column names together with its rows in positional order; a row maps a column
  name to a cell. A cell is a missing value (pandas NaN, NaT or None), a number, a
  string, a UTC instant in whole seconds since the epoch, or a boolean. The positional
  index of a frame is the position in \<open>rows\<close>, so \<open>reset_index(drop=True)\<close> is the
  identity and is not written out.
\<close>

datatype cell = NA | Num int | Str string | Time int | Flag bool

type_synonym row = "string \<Rightarrow> cell"

record frame =
  columns :: "string list"
  rows :: "row list"

datatype error = KeyError "string list" | IndexError | ValueError string | TypeError string

definition bind :: "error + 'a \<Rightarrow> ('a \<Rightarrow> error + 'b) \<Rightarrow> error + 'b" where
  "bind m f = (case m of Inl e \<Rightarrow> Inl e | Inr x \<Rightarrow> f x)"

fun mapM :: "('a \<Rightarrow> error + 'b) \<Rightarrow> 'a list \<Rightarrow> error + 'b list" where
  "mapM f [] = Inr []"
| "mapM f (x # xs) = bind (f x) (\<lambda>y. bind (mapM f xs) (\<lambda>ys. Inr (y # ys)))"

text \<open>\<open>pd.DataFrame()\<close> and \<open>df.empty\<close> (true when either axis has length zero).\<close>

definition empty_frame :: frame where
  "empty_frame = \<lparr>columns = [], rows = []\<rparr>"

definition is_empty :: "frame \<Rightarrow> bool" where
  "is_empty df \<longleftrightarrow> columns df = [] \<or> rows df = []"

text \<open>\<open>df[c]\<close>: the column as a list of cells; a missing column raises \<open>KeyError\<close>.\<close>

definition get_col :: "string \<Rightarrow> frame \<Rightarrow> error + cell list" where
  "get_col c df =
     (if c \<in> set (columns df) then Inr (map (\<lambda>r. r c) (rows df)) else Inl (KeyError [c]))"

text \<open>\<open>df[c] = series\<close>: replaces column \<open>c\<close> or appends it as the last column.\<close>

definition set_col :: "string \<Rightarrow> cell list \<Rightarrow> frame \<Rightarrow> frame" where
  "set_col c vs df =
     \<lparr>columns = (if c \<in> set (columns df) then columns df else columns df @ [c]),
      rows = map (\<lambda>(r, v). r(c := v)) (zip (rows df) vs)\<rparr>"


text \<open>
  \<open>df[c] = expr\<close> where \<open>expr\<close> is computed row by row from the frame's own columns.
\<close>

definition assign :: "string \<Rightarrow> (row \<Rightarrow> cell) \<Rightarrow> frame \<Rightarrow> frame" where
  "assign c g df =
     \<lparr>columns = (if c \<in> set (columns df) then columns df else columns df @ [c]),
      rows = map (\<lambda>r. r(c := g r)) (rows df)\<rparr>"

text \<open>\<open>df.drop(columns=cs, errors="ignore")\<close>: absent names are skipped.\<close>

definition drop_columns :: "string list \<Rightarrow> frame \<Rightarrow> frame" where
  "drop_columns cs df =
     \<lparr>columns = filter (\<lambda>c. c \<notin> set cs) (columns df),
      rows = map (\<lambda>r c. if c \<in> set cs then NA else r c) (rows df)\<rparr>"

text \<open>\<open>df.loc[:, cs]\<close>: a missing name raises \<open>KeyError\<close>.\<close>

definition select_columns :: "string list \<Rightarrow> frame \<Rightarrow> error + frame" where
  "select_columns cs df =
     (case filter (\<lambda>c. c \<notin> set (columns df)) cs of
        [] \<Rightarrow> Inr \<lparr>columns = cs, rows = map (\<lambda>r c. if c \<in> set cs then r c else NA) (rows df)\<rparr>
      | missing \<Rightarrow> Inl (KeyError missing))"

text \<open>\<open>df.rename(columns={a: b})\<close>; a name that is not a column is left alone.\<close>

definition rename_column :: "string \<Rightarrow> string \<Rightarrow> frame \<Rightarrow> frame" where
  "rename_column a b df =
     (if a \<in> set (columns df)
      then \<lparr>columns = map (\<lambda>c. if c = a then b else c) (columns df),
            rows = map (\<lambda>r c. if c = b then r a else if c = a then NA else r c) (rows df)\<rparr>
      else df)"

text \<open>
  \<open>df.columns = new\<close>: the columns are renamed by position; a list of another length
  raises \<open>ValueError\<close>.
\<close>

definition set_columns :: "string list \<Rightarrow> frame \<Rightarrow> error + frame" where
  "set_columns new df =
     (if length new \<noteq> length (columns df) then Inl (ValueError ''Length mismatch'')
      else Inr \<lparr>columns = new,
                rows = map (\<lambda>r c. case map_of (zip new (columns df)) c of
                                      Some old \<Rightarrow> r old | None \<Rightarrow> NA) (rows df)\<rparr>)"

text \<open>
  \<open>df.drop_duplicates(subset=cs)\<close> keeps the first row of every key; two missing cells
  count as equal. A name of \<open>cs\<close> that is not a column raises \<open>KeyError\<close>.
\<close>

fun keep_first :: "('a \<Rightarrow> 'k) \<Rightarrow> 'k set \<Rightarrow> 'a list \<Rightarrow> 'a list" where
  "keep_first key seen [] = []"
| "keep_first key seen (x # xs) =
     (if key x \<in> seen then keep_first key seen xs
      else x # keep_first key (insert (key x) seen) xs)"

definition row_key :: "string list \<Rightarrow> row \<Rightarrow> cell list" where
  "row_key cs r = map r cs"

definition drop_duplicates :: "string list \<Rightarrow> frame \<Rightarrow> error + frame" where
  "drop_duplicates cs df =
     (case filter (\<lambda>c. c \<notin> set (columns df)) cs of
        [] \<Rightarrow> Inr (df\<lparr>rows := keep_first (row_key cs) {} (rows df)\<rparr>)
      | missing \<Rightarrow> Inl (KeyError missing))"

text \<open>
  \<open>df.sort_values(c)\<close> on a datetime column: instants ascending, rows without an
  instant (NaT) last. Rows with equal instants keep their relative order.
\<close>

fun is_time :: "cell \<Rightarrow> bool" where
  "is_time (Time t) = True"
| "is_time _ = False"

fun the_time :: "cell \<Rightarrow> int" where
  "the_time (Time t) = t"
| "the_time _ = 0"

definition sort_values :: "string \<Rightarrow> frame \<Rightarrow> error + frame" where
  "sort_values c df =
     (if c \<in> set (columns df)
      then Inr (df\<lparr>rows := sort_key (\<lambda>r. the_time (r c)) (filter (\<lambda>r. is_time (r c)) (rows df))
                             @ filter (\<lambda>r. \<not> is_time (r c)) (rows df)\<rparr>)
      else Inl (KeyError [c]))"

text \<open>
  \<open>df.dropna(subset=cs, how="all")\<close> removes the rows in which every cell of \<open>cs\<close>
  is missing (with an empty \<open>cs\<close>, every row).
\<close>

definition dropna_all :: "string list \<Rightarrow> frame \<Rightarrow> error + frame" where
  "dropna_all cs df =
     (case filter (\<lambda>c. c \<notin> set (columns df)) cs of
        [] \<Rightarrow> Inr (df\<lparr>rows := filter (\<lambda>r. \<exists>c \<in> set cs. r c \<noteq> NA) (rows df)\<rparr>)
      | missing \<Rightarrow> Inl (KeyError missing))"

text \<open>\<open>pd.concat([a, b], ignore_index=True)\<close>: the union of the columns, the rows of \<open>a\<close> then of \<open>b\<close>.\<close>

definition concat_frames :: "frame \<Rightarrow> frame \<Rightarrow> frame" where
  "concat_frames a b =
     \<lparr>columns = columns a @ filter (\<lambda>c. c \<notin> set (columns a)) (columns b),
      rows = rows a @ rows b\<rparr>"

section \<open>Cell conversions\<close>

text \<open>
  The string parsers of pandas are parameters: \<open>parse_dt\<close> reads a date-time string as
  seconds since the epoch and \<open>parse_num\<close> reads a number, each \<open>None\<close> on a string it
  does not accept.

  \<open>pd.to_datetime(..., errors="coerce", utc=True)\<close> on one cell: what does not parse
  becomes NaT; a number counts nanoseconds.
\<close>

fun to_datetime :: "(string \<Rightarrow> int option) \<Rightarrow> cell \<Rightarrow> cell" where
  "to_datetime parse_dt (Str s) = (case parse_dt s of Some t \<Rightarrow> Time t | None \<Rightarrow> NA)"
| "to_datetime parse_dt (Time t) = Time t"
| "to_datetime parse_dt (Num n) = Time (n div 1000000000)"
| "to_datetime parse_dt c = NA"

text \<open>
  \<open>pd.to_datetime(..., unit="s", utc=True)\<close> on one cell, without coercion. A number
  counts seconds since the epoch and a string that reads as a number is taken as that
  number; seconds that do not fit the nanosecond range of a timestamp raise
  \<open>OutOfBoundsDatetime\<close> (a \<open>ValueError\<close>), any other string raises \<open>ValueError\<close>, a
  boolean raises \<open>TypeError\<close>. A missing value is NaT.
\<close>

definition epoch_seconds :: "int \<Rightarrow> error + cell" where
  "epoch_seconds n =
     (if - 9223372036 \<le> n \<and> n \<le> 9223372036 then Inr (Time n)
      else Inl (ValueError ''Out of bounds nanosecond timestamp''))"

fun to_datetime_s :: "(string \<Rightarrow> int option) \<Rightarrow> cell \<Rightarrow> error + cell" where
  "to_datetime_s parse_num (Num n) = epoch_seconds n"
| "to_datetime_s parse_num (Str s) =
     (case parse_num s of
        Some n \<Rightarrow> epoch_seconds n
      | None \<Rightarrow> Inl (ValueError ''non convertible value with the unit s''))"
| "to_datetime_s parse_num NA = Inr NA"
| "to_datetime_s parse_num (Time t) = Inr (Time t)"
| "to_datetime_s parse_num (Flag b) = Inl (TypeError ''bool is not convertible to datetime'')"

text \<open>\<open>pd.to_numeric(..., errors="coerce")\<close> on one cell.\<close>

fun to_numeric :: "(string \<Rightarrow> int option) \<Rightarrow> cell \<Rightarrow> cell" where
  "to_numeric parse_num (Num n) = Num n"
| "to_numeric parse_num (Str s) = (case parse_num s of Some n \<Rightarrow> Num n | None \<Rightarrow> NA)"
| "to_numeric parse_num (Flag b) = Num (if b then 1 else 0)"
| "to_numeric parse_num (Time t) = Num (t * 1000000000)"
| "to_numeric parse_num NA = NA"

definition hour :: int where
  "hour = 3600"

text \<open>\<open>Series.dt.floor("h")\<close> on one cell: an instant is floored, NaT stays NaT.\<close>

definition floor_hour :: "int \<Rightarrow> int" where
  "floor_hour t = t - t mod hour"

fun floor_cell :: "cell \<Rightarrow> cell" where
  "floor_cell (Time t) = Time (floor_hour t)"
| "floor_cell c = c"

text \<open>\<open>Series.astype(str)\<close> on one cell.\<close>

fun digits :: "nat \<Rightarrow> nat list" where
  "digits n = (if n < 10 then [n] else n mod 10 # digits (n div 10))"

definition string_of_int :: "int \<Rightarrow> string" where
  "string_of_int i =
     (let ds = map (\<lambda>d. char_of (48 + d)) (rev (digits (nat \<bar>i\<bar>)))
      in if i < 0 then CHR ''-'' # ds else ds)"

fun astype_str :: "cell \<Rightarrow> string" where
  "astype_str (Str s) = s"
| "astype_str (Num n) = string_of_int n"
| "astype_str NA = ''nan''"
| "astype_str (Flag b) = (if b then ''True'' else ''False'')"
| "astype_str (Time t) = string_of_int t"

text \<open>
  \<open>+\<close> between two cells of object columns: strings are concatenated, numbers added, a
  missing operand gives a missing result, and a string with a number raises \<open>TypeError\<close>.
\<close>

fun cell_add :: "cell \<Rightarrow> cell \<Rightarrow> error + cell" where
  "cell_add (Str a) (Str b) = Inr (Str (a @ b))"
| "cell_add (Num a) (Num b) = Inr (Num (a + b))"
| "cell_add NA b = Inr NA"
| "cell_add a NA = Inr NA"
| "cell_add a b = Inl (TypeError ''unsupported operand types for +'')"

text \<open>
  \<open>Series.shift()\<close> moves every cell one position down and puts a missing value first;
  \<open>Series.ne\<close> compares cell by cell, and a missing value differs from everything,
  itself included.
\<close>

definition shift :: "cell list \<Rightarrow> cell list" where
  "shift cs = (case cs of [] \<Rightarrow> [] | _ \<Rightarrow> NA # butlast cs)"

definition cell_ne :: "cell \<Rightarrow> cell \<Rightarrow> bool" where
  "cell_ne a b \<longleftrightarrow> a = NA \<or> b = NA \<or> a \<noteq> b"

definition series_ne :: "cell list \<Rightarrow> cell list \<Rightarrow> cell list" where
  "series_ne xs ys = map (\<lambda>(a, b). Flag (cell_ne a b)) (zip xs ys)"

section \<open>Timestamps and the hourly grid\<close>

fun times_of :: "cell list \<Rightarrow> int list" where
  "times_of [] = []"
| "times_of (Time t # cs) = t # times_of cs"
| "times_of (c # cs) = times_of cs"

text \<open>
  \<open>Series.min()\<close> and \<open>Series.max()\<close> of a datetime column skip NaT and give NaT
  (here \<open>None\<close>) when no instant is left.
\<close>

definition series_min :: "cell list \<Rightarrow> int option" where
  "series_min cs = (case times_of cs of [] \<Rightarrow> None | t # ts \<Rightarrow> Some (fold min ts t))"

definition series_max :: "cell list \<Rightarrow> int option" where
  "series_max cs = (case times_of cs of [] \<Rightarrow> None | t # ts \<Rightarrow> Some (fold max ts t))"

text \<open>
  Python's builtin \<open>min\<close> and \<open>max\<close> over the per-frame results: the first item is the
  candidate, and a later item replaces it only when it compares strictly smaller
  (greater). Every comparison with NaT is false. An empty sequence raises \<open>ValueError\<close>.
\<close>

fun ts_less :: "int option \<Rightarrow> int option \<Rightarrow> bool" where
  "ts_less (Some a) (Some b) = (a < b)"
| "ts_less _ _ = False"

fun py_min :: "int option list \<Rightarrow> error + int option" where
  "py_min [] = Inl (ValueError ''min() arg is an empty sequence'')"
| "py_min (x # xs) = Inr (fold (\<lambda>y cur. if ts_less y cur then y else cur) xs x)"

fun py_max :: "int option list \<Rightarrow> error + int option" where
  "py_max [] = Inl (ValueError ''max() arg is an empty sequence'')"
| "py_max (x # xs) = Inr (fold (\<lambda>y cur. if ts_less cur y then y else cur) xs x)"

text \<open>
  \<open>pd.date_range(start, end, freq="H", tz="UTC")\<close>: the instants \<open>start + k\<close> hours that
  do not exceed \<open>end\<close>; NaT as a bound raises \<open>ValueError\<close>.
\<close>

fun date_range :: "int option \<Rightarrow> int option \<Rightarrow> error + int list" where
  "date_range (Some s) (Some e) =
     Inr (map (\<lambda>k. s + hour * int k) [0..<nat ((e - s) div hour + 1)])"
| "date_range _ _ = Inl (ValueError ''Neither start nor end can be NaT'')"

definition build_hourly_index :: "frame list \<Rightarrow> error + int list" where
  "build_hourly_index frames =
     bind (mapM (\<lambda>df. bind (get_col ''datetime_utc'' df) (\<lambda>s. Inr (series_min s))) frames)
       (\<lambda>mins. bind (py_min mins)
       (\<lambda>start. bind (mapM (\<lambda>df. bind (get_col ''datetime_utc'' df) (\<lambda>s. Inr (series_max s))) frames)
       (\<lambda>maxs. bind (py_max maxs)
       (\<lambda>end. date_range start end))))"


section \<open>Source normalizers\<close>

text \<open>
  \<open>clean_airnow\<close>. The first test recognises a file read without its header line: the
  first column name then equals the first cell, and the twelve AirNow names are put in
  place. \<open>list(df.columns)[0]\<close> and \<open>df.iloc[0, 0]\<close> raise \<open>IndexError\<close> on a frame
  without columns or without rows.
\<close>

definition airnow_header :: "string list" where
  "airnow_header =
     [''DateObserved'', ''HourObserved'', ''LocalTimeZone'', ''ReportingArea'',
      ''StateCode'', ''Latitude'', ''Longitude'', ''ParameterName'', ''AQI'',
      ''Category'', ''DateLocal'', ''HourLocal'']"

definition with_airnow_header :: "frame \<Rightarrow> error + frame" where
  "with_airnow_header df =
     (case (columns df, rows df) of
        (c0 # _, r0 # _) \<Rightarrow> if Str c0 = r0 c0 then set_columns airnow_header df else Inr df
      | _ \<Rightarrow> Inl IndexError)"

definition clean_airnow :: "(string \<Rightarrow> int option) \<Rightarrow> frame \<Rightarrow> error + frame" where
  "clean_airnow parse_dt df =
     bind (with_airnow_header df) (\<lambda>df.
     bind (get_col ''DateObserved'' df) (\<lambda>date.
     bind (mapM (\<lambda>d. cell_add d (Str '' '')) date) (\<lambda>date_sp.
     bind (get_col ''HourObserved'' df) (\<lambda>hr.
     bind (mapM (\<lambda>(d, h). cell_add d (Str (astype_str h))) (zip date_sp hr)) (\<lambda>combined.
     let df = set_col ''datetime_utc'' (map (to_datetime parse_dt) combined) df;
         df = drop_columns [''DateObserved'', ''HourObserved'', ''DateLocal'',
                            ''HourLocal'', ''LocalTimeZone''] df
     in bind (drop_duplicates [''ReportingArea'', ''ParameterName'', ''datetime_utc''] df) (\<lambda>df.
        sort_values ''datetime_utc'' df))))))"

definition fillna :: "cell \<Rightarrow> cell \<Rightarrow> cell" where
  "fillna v c = (if c = NA then v else c)"

definition clean_aqs :: "(string \<Rightarrow> int option) \<Rightarrow> frame \<Rightarrow> error + frame" where
  "clean_aqs parse_dt df =
     bind (get_col ''date_gmt'' df) (\<lambda>date.
     bind (mapM (\<lambda>d. cell_add d (Str '' '')) date) (\<lambda>date_sp.
     bind (get_col ''time_gmt'' df) (\<lambda>time.
     bind (mapM (\<lambda>(d, t). cell_add d t) (zip date_sp time)) (\<lambda>combined.
     let df = set_col ''datetime_utc'' (map (to_datetime parse_dt) combined) df;
         df = drop_columns [''date_local'', ''time_local'', ''date_gmt'', ''time_gmt'',
                            ''uncertainty'', ''datum'', ''units_of_measure_code'',
                            ''sample_duration_code''] df
     in bind (get_col ''qualifier'' df) (\<lambda>q.
        let df = set_col ''qualifier'' (map (fillna (Str ''None'')) q) df
        in bind (drop_duplicates [''state_code'', ''county_code'', ''site_number'',
                                  ''datetime_utc'', ''parameter_code''] df) (\<lambda>df.
           bind (sort_values ''datetime_utc'' df) (\<lambda>df.
           bind (get_col ''datetime_utc'' df) (\<lambda>ts.
           Inr (set_col ''datetime_utc'' (map floor_cell ts) df)))))))))"

definition clean_purpleair :: "(string \<Rightarrow> int option) \<Rightarrow> frame \<Rightarrow> error + frame" where
  "clean_purpleair parse_num df =
     bind (if ''time_stamp'' \<in> set (columns df) then get_col ''time_stamp'' df
           else if ''last_seen'' \<in> set (columns df) then get_col ''last_seen'' df
           else Inl (ValueError ''Expected a time_stamp or last_seen column in the data.'')) (\<lambda>epoch.
     bind (mapM (to_datetime_s parse_num) epoch) (\<lambda>ts.
     let df = set_col ''datetime_utc'' ts df
     in bind (get_col ''datetime_utc'' df) (\<lambda>ts.
        let df = set_col ''datetime_utc'' (map floor_cell ts) df;
            df = drop_columns [''time_stamp'', ''last_seen''] df
        in bind (drop_duplicates [''sensor_index'', ''datetime_utc''] df) (\<lambda>df.
           sort_values ''datetime_utc'' df))))"


definition num_cols :: "string list" where
  "num_cols =
     [''temperature_2m'', ''relative_humidity_2m'', ''precipitation'', ''rain'',
      ''wind_speed_10m'', ''wind_direction_10m'', ''wind_gusts_10m'',
      ''latitude'', ''longitude'', ''elevation_m'']"

definition core_weather :: "string list" where
  "core_weather =
     [''temperature_2m'', ''relative_humidity_2m'', ''precipitation'', ''wind_speed_10m'']"

definition clean_openmeteo ::
  "(string \<Rightarrow> int option) \<Rightarrow> (string \<Rightarrow> int option) \<Rightarrow> frame \<Rightarrow> error + frame" where
  "clean_openmeteo parse_dt parse_num df =
     (if ''datetime_utc'' \<notin> set (columns df)
      then Inl (ValueError ''Expected datetime_utc column in Open-Meteo data.'')
      else
        let df = assign ''datetime_utc'' (\<lambda>r. to_datetime parse_dt (r ''datetime_utc'')) df;
            df = fold (\<lambda>col df. if col \<in> set (columns df)
                                  then assign col (\<lambda>r. to_numeric parse_num (r col)) df else df)
                      num_cols df
        in bind (dropna_all (filter (\<lambda>c. c \<in> set (columns df)) core_weather) df) (\<lambda>df.
           bind (drop_duplicates [''datetime_utc''] df) (\<lambda>df.
           sort_values ''datetime_utc'' df)))"

section \<open>Merge orchestrator\<close>

text \<open>
  The five interim files, each present (with the frame \<open>pd.read_csv\<close> gives) or absent.
  \<open>_read\<close> gives an empty frame for an absent file and otherwise coerces the
  \<open>datetime_utc\<close> column, when there is one, to UTC instants.
\<close>

record 'a sources =
  aqs :: 'a
  airnow :: 'a
  purpleair :: 'a
  openmeteo :: 'a
  hvo :: 'a

definition read :: "(string \<Rightarrow> int option) \<Rightarrow> frame option \<Rightarrow> frame" where
  "read parse_dt file =
     (case file of
        None \<Rightarrow> empty_frame
      | Some df \<Rightarrow>
          if ''datetime_utc'' \<in> set (columns df)
          then assign ''datetime_utc'' (\<lambda>r. to_datetime parse_dt (r ''datetime_utc'')) df
          else df)"

definition load_all :: "(string \<Rightarrow> int option) \<Rightarrow> frame option sources \<Rightarrow> frame sources" where
  "load_all parse_dt files =
     \<lparr>aqs = read parse_dt (aqs files), airnow = read parse_dt (airnow files),
      purpleair = read parse_dt (purpleair files), openmeteo = read parse_dt (openmeteo files),
      hvo = read parse_dt (hvo files)\<rparr>"

definition prep_aqs :: "frame \<Rightarrow> error + frame" where
  "prep_aqs df =
     (if is_empty df then Inr df
      else bind (select_columns [''datetime_utc'', ''sample_measurement''] df) (\<lambda>out.
           Inr (rename_column ''sample_measurement'' ''pm25_aqs'' out)))"

definition prep_airnow :: "frame \<Rightarrow> error + frame" where
  "prep_airnow df =
     (if is_empty df then Inr df
      else bind (select_columns [''datetime_utc'', ''AQI''] df) (\<lambda>out.
           Inr (rename_column ''AQI'' ''aqi_airnow'' out)))"

definition prep_purpleair :: "frame \<Rightarrow> error + frame" where
  "prep_purpleair df =
     (if is_empty df then Inr df
      else bind (select_columns [''datetime_utc'', ''pm2.5_atm'', ''humidity'',
                                 ''temperature'', ''pressure''] df) (\<lambda>out.
           Inr (rename_column ''pm2.5_atm'' ''pm25_purpleair'' out)))"

definition prep_openmeteo :: "frame \<Rightarrow> error + frame" where
  "prep_openmeteo df =
     (if is_empty df then Inr df
      else select_columns [''datetime_utc'', ''temperature_2m'', ''relative_humidity_2m'',
                           ''precipitation'', ''rain'', ''wind_speed_10m'',
                           ''wind_direction_10m'', ''wind_gusts_10m''] df)"

definition prep_hvo :: "frame \<Rightarrow> error + frame" where
  "prep_hvo df =
     (if is_empty df then Inr df
      else select_columns [''datetime_utc'', ''alertLevel'', ''colorCode'',
                           ''alert_change'', ''color_change''] df)"

text \<open>
  \<open>base_df.merge(add_df, on="datetime_utc", how="left")\<close>: every row of the left frame,
  in order, once for each row of the right frame with an equal key (in the right frame's
  order), or once with missing values when there is none. The value columns of the
  prepared frames are pairwise different, so the suffixes pandas gives to clashing names
  never arise and are not modelled.
\<close>

definition join_row :: "string list \<Rightarrow> row \<Rightarrow> row \<Rightarrow> row" where
  "join_row vcols l m = (\<lambda>c. if c \<in> set vcols then m c else l c)"

definition merge_left :: "string \<Rightarrow> frame \<Rightarrow> frame \<Rightarrow> error + frame" where
  "merge_left key base_df add_df =
     (if key \<notin> set (columns base_df) \<or> key \<notin> set (columns add_df) then Inl (KeyError [key])
      else
        let vcols = filter (\<lambda>c. c \<noteq> key) (columns add_df)
        in Inr \<lparr>columns = columns base_df @ vcols,
                rows = concat (map (\<lambda>l.
                         case filter (\<lambda>m. m key = l key) (rows add_df) of
                           [] \<Rightarrow> [join_row vcols l (\<lambda>c. NA)]
                         | ms \<Rightarrow> map (join_row vcols l) ms) (rows base_df))\<rparr>)"

definition left_join :: "frame \<Rightarrow> frame \<Rightarrow> error + frame" where
  "left_join base_df add_df =
     (if is_empty add_df then Inr base_df
      else merge_left ''datetime_utc'' base_df add_df)"

definition grid_frame :: "int list \<Rightarrow> frame" where
  "grid_frame idx = \<lparr>columns = [''datetime_utc''],
                      rows = map (\<lambda>t. (\<lambda>c. NA)(''datetime_utc'' := Time t)) idx\<rparr>"

definition merge_all :: "(string \<Rightarrow> int option) \<Rightarrow> frame option sources \<Rightarrow> error + frame" where
  "merge_all parse_dt files =
     (let raw = load_all parse_dt files
      in bind (prep_aqs (aqs raw)) (\<lambda>aqs.
         bind (prep_airnow (airnow raw)) (\<lambda>airnow.
         bind (prep_purpleair (purpleair raw)) (\<lambda>purpleair.
         bind (prep_openmeteo (openmeteo raw)) (\<lambda>openmeteo.
         bind (prep_hvo (hvo raw)) (\<lambda>hvo.
         let frames = [aqs, airnow, purpleair, openmeteo, hvo]
         in bind (build_hourly_index frames) (\<lambda>idx.
            let base = grid_frame idx
            in bind (left_join base aqs) (\<lambda>merged.
               bind (left_join merged airnow) (\<lambda>merged.
               bind (left_join merged purpleair) (\<lambda>merged.
               bind (left_join merged openmeteo) (\<lambda>merged.
               bind (left_join merged hvo) (\<lambda>merged.
               bind (drop_duplicates [''datetime_utc''] merged) (\<lambda>merged.
               sort_values ''datetime_utc'' merged)))))))))))))"


section \<open>Raw archives and the ingestion updates\<close>

text \<open>
  A raw archive is a CSV file: absent (\<open>None\<close>) or holding a header and rows. What
  \<open>to_csv\<close> writes is the frame's cells under its own columns; with \<open>mode="a"\<close> and
  no header line the new rows are written by position under the header the file has.
\<close>

definition written :: "frame \<Rightarrow> frame" where
  "written df = \<lparr>columns = columns df,
                  rows = map (\<lambda>r c. if c \<in> set (columns df) then r c else NA) (rows df)\<rparr>"

definition to_csv_append :: "frame \<Rightarrow> frame option \<Rightarrow> frame" where
  "to_csv_append df file =
     (case file of
        None \<Rightarrow> written df
      | Some old \<Rightarrow>
          old\<lparr>rows := rows old @
                 map (\<lambda>r c. case map_of (zip (columns old) (columns df)) c of
                               Some n \<Rightarrow> r n | None \<Rightarrow> NA) (rows df)\<rparr>)"

text \<open>\<open>airnow_daily._append_day\<close>, with the rows of the day as a frame.\<close>

definition append_day :: "frame \<Rightarrow> frame option \<Rightarrow> frame option \<times> nat" where
  "append_day df_day file =
     (if rows df_day = [] then (file, 0)
      else (Some (to_csv_append df_day file), length (rows df_day)))"

text \<open>
  The body of the sensor loop of \<open>purpleair_daily\<close>: the history of one sensor, when it
  has data, is appended to the archive.
\<close>

definition append_sensor :: "frame \<Rightarrow> frame option \<Rightarrow> frame option" where
  "append_sensor df file =
     (if rows df = [] then file else Some (to_csv_append df file))"

text \<open>
  \<open>ingestion/hvo.py\<close>: the fetched status record gets the flag \<open>new_notice\<close> (whether its
  notice id differs from the last archived one; compared with \<open>None\<close> when the archive
  has no rows, and true when there is no archive) and is appended as one row.
\<close>

definition hvo_fields :: "string list" where
  "hvo_fields =
     [''timestamp_utc'', ''alertDate'', ''colorDate'', ''alertLevel'', ''colorCode'',
      ''noticeSynopsis'', ''noticeId'', ''noticeUrl'', ''vName'', ''nvewsThreat'',
      ''new_notice'']"

definition log_status :: "row \<Rightarrow> frame option \<Rightarrow> error + frame option" where
  "log_status record file =
     bind (case file of
             None \<Rightarrow> Inr True
           | Some df \<Rightarrow>
               if is_empty df then Inr (record ''noticeId'' \<noteq> NA)
               else bind (get_col ''noticeId'' df) (\<lambda>ids.
                    Inr (cell_ne (record ''noticeId'') (last ids)))) (\<lambda>new_notice.
     let df_new = \<lparr>columns = hvo_fields, rows = [record(''new_notice'' := Flag new_notice)]\<rparr>
     in Inr (Some (to_csv_append df_new file)))"

text \<open>
  \<open>aqs_monthly.append_unique\<close>, with the fetched rows as a frame. The archive is the
  frame that \<open>read_csv(RAW_PATH, parse_dates=["date_local"])\<close> returns: \<open>date_local\<close>
  holds instants where the stored column read as dates and the stored text otherwise, and
  a file without the column raises \<open>ValueError\<close>. The fetched rows carry \<open>date_local\<close> as
  the text of the API. The result is the frame handed to \<open>to_csv\<close> and the number
  returned.
\<close>

definition aqs_key :: "string list" where
  "aqs_key = [''state_code'', ''county_code'', ''site_number'',
              ''date_local'', ''time_local'', ''parameter_code'']"

definition append_unique :: "frame \<Rightarrow> frame option \<Rightarrow> error + (frame option \<times> int)" where
  "append_unique df_new file =
     (if rows df_new = [] then Inr (file, 0)
      else case file of
        Some df_exist \<Rightarrow>
          if ''date_local'' \<notin> set (columns df_exist)
          then Inl (ValueError ''Missing column provided to parse_dates'')
          else
            bind (drop_duplicates aqs_key (concat_frames df_exist df_new)) (\<lambda>df_comb.
            Inr (Some (written df_comb),
                 int (length (rows df_comb)) - int (length (rows df_exist))))
      | None \<Rightarrow> Inr (Some (written df_new), int (length (rows df_new))))"

text \<open>
  \<open>openmeteo_recent.main\<close> from the chunks that were fetched (none when the archive is up
  to date or every request failed) and the archive as
  \<open>read_csv(INFILE, parse_dates=["datetime_utc"])\<close> returns it. A file without the column
  raises \<open>ValueError\<close>. A column that did not read as dates holds text, and adding an hour
  to its maximum raises \<open>TypeError\<close>. A column that read as dates holds instants and NaT;
  \<open>tz_aware\<close> tells whether the stored timestamps carry a UTC offset. The chunks of
  \<open>fetch_chunk\<close> are always in UTC: once they are concatenated with timestamps that
  carry no offset the column holds both kinds, and sorting it raises \<open>TypeError\<close>. With
  no instant in the archive the start of the fetch is NaT, the loop over the chunks is
  not entered and the file stays as it is. An update that fails leaves the file as it
  is; one that succeeds returns the frame handed to \<open>to_csv\<close>.
\<close>

fun concat_all :: "frame list \<Rightarrow> frame" where
  "concat_all [] = empty_frame"
| "concat_all (df # dfs) = fold (\<lambda>b a. concat_frames a b) dfs df"

definition update_openmeteo :: "bool \<Rightarrow> frame list \<Rightarrow> frame option \<Rightarrow> error + frame option" where
  "update_openmeteo tz_aware new_data file =
     (case file of
        None \<Rightarrow> Inr None
      | Some existing \<Rightarrow>
          if ''datetime_utc'' \<notin> set (columns existing)
          then Inl (ValueError ''Missing column provided to parse_dates'')
          else if \<exists>r \<in> set (rows existing). \<not> is_time (r ''datetime_utc'') \<and> r ''datetime_utc'' \<noteq> NA
          then Inl (TypeError ''unsupported operand types for +'')
          else if \<forall>r \<in> set (rows existing). \<not> is_time (r ''datetime_utc'')
          then Inr (Some existing)
          else if new_data = [] then Inr (Some existing)
          else
            let new_df = concat_all new_data;
                combined = concat_frames existing new_df
            in bind (drop_duplicates [''datetime_utc''] combined) (\<lambda>combined.
               if \<not> tz_aware \<and> (\<exists>r \<in> set (rows new_df). is_time (r ''datetime_utc''))
               then Inl (TypeError ''Cannot compare tz-naive and tz-aware timestamps'')
               else
                 bind (sort_values ''datetime_utc'' combined) (\<lambda>combined.
                 Inr (Some (written combined)))))"

section \<open>Notions used in the statements\<close>

text \<open>The instants of a frame's \<open>datetime_utc\<close> column, and of a list of frames.\<close>

definition frame_times :: "frame \<Rightarrow> int list" where
  "frame_times df = times_of (map (\<lambda>r. r ''datetime_utc'') (rows df))"

definition all_times :: "frame list \<Rightarrow> int list" where
  "all_times fs = concat (map frame_times fs)"

text \<open>A non-empty frame whose \<open>datetime_utc\<close> column holds instants only.\<close>

definition valid_frame :: "frame \<Rightarrow> bool" where
  "valid_frame df \<longleftrightarrow> ''datetime_utc'' \<in> set (columns df) \<and> rows df \<noteq> [] \<and>
     (\<forall>r \<in> set (rows df). is_time (r ''datetime_utc''))"

text \<open>Rows and frames written out cell by cell, for the examples.\<close>

definition mk_row :: "(string \<times> cell) list \<Rightarrow> row" where
  "mk_row kvs = (\<lambda>c. case map_of kvs c of Some v \<Rightarrow> v | None \<Rightarrow> NA)"

definition mk_frame :: "string list \<Rightarrow> cell list list \<Rightarrow> frame" where
  "mk_frame cs lines = \<lparr>columns = cs, rows = map (\<lambda>l. mk_row (zip cs l)) lines\<rparr>"

definition ts_frame :: "int list \<Rightarrow> frame" where
  "ts_frame ts = mk_frame [''datetime_utc''] (map (\<lambda>t. [Time t]) ts)"

text \<open>A date-time parser for the examples: the strings it reads, with their epoch seconds.\<close>

definition example_parse_dt :: "string \<Rightarrow> int option" where
  "example_parse_dt = map_of
     [(''2024-01-01 00:00'', 1704067200), (''2024-01-01 01:00'', 1704070800),
      (''2024-01-01 02:00'', 1704074400), (''2024-01-01 03:00'', 1704078000),
      (''2024-01-01 04:00'', 1704081600), (''2024-01-01 10:00'', 1704103200),
      (''2024-01-01 10:30'', 1704105000)]"

text \<open>
  Two AQS samples of one monitor and one pollutant, at 10:00 and at 10:30 GMT of the
  same day.
\<close>

definition aqs_half_hour :: frame where
  "aqs_half_hour = mk_frame
     [''state_code'', ''county_code'', ''site_number'', ''parameter_code'', ''date_gmt'',
      ''time_gmt'', ''sample_measurement'', ''qualifier'']
     [[Num 15, Num 1, Num 1006, Num 88101, Str ''2024-01-01'', Str ''10:00'', Num 4, NA],
      [Num 15, Num 1, Num 1006, Num 88101, Str ''2024-01-01'', Str ''10:30'', Num 6, NA]]"

text \<open>
  What \<open>clean_purpleair\<close> makes of one input row when \<open>src\<close> is the time column
  it reads: the floored instant in \<open>datetime_utc\<close>, both time columns dropped.
\<close>

definition purpleair_row :: "(string \<Rightarrow> int option) \<Rightarrow> string \<Rightarrow> row \<Rightarrow> row" where
  "purpleair_row parse_num src r =
     (\<lambda>c. if c = ''datetime_utc''
          then (case to_datetime_s parse_num (r src) of Inr t \<Rightarrow> floor_cell t | Inl e \<Rightarrow> NA)
          else if c = ''time_stamp'' \<or> c = ''last_seen'' then NA else r c)"

text \<open>PurpleAir frames with both time columns, with \<open>last_seen\<close> only, and with neither.\<close>

definition purpleair_both :: frame where
  "purpleair_both = mk_frame
     [''time_stamp'', ''last_seen'', ''sensor_index'', ''pm2.5_atm'']
     [[Num 1704068100, Num 1704075000, Num 7, Num 3]]"

definition purpleair_last_seen :: frame where
  "purpleair_last_seen = mk_frame
     [''last_seen'', ''sensor_index'', ''pm2.5_atm'']
     [[Num 1704075000, Num 7, Num 3]]"

definition purpleair_untimed :: frame where
  "purpleair_untimed = mk_frame [''sensor_index'', ''pm2.5_atm''] [[Num 7, Num 3]]"

text \<open>A PurpleAir frame whose \<open>time_stamp\<close> column holds a value that is no number.\<close>

definition purpleair_unconvertible :: frame where
  "purpleair_unconvertible = mk_frame
     [''time_stamp'', ''sensor_index'', ''pm2.5_atm'']
     [[Str ''1704068100'', Num 7, Num 3], [Str ''unknown'', Num 7, Num 4]]"

text \<open>The interim files when only the AQS file exists.\<close>

definition only_aqs :: "frame option sources" where
  "only_aqs =
     \<lparr>aqs = Some (mk_frame [''datetime_utc'', ''sample_measurement'']
                   [[Str ''2024-01-01 00:00'', Num 4], [Str ''2024-01-01 01:00'', Num 5]]),
      airnow = None, purpleair = None, openmeteo = None, hvo = None\<rparr>"


text \<open>
  What \<open>clean_airnow\<close> makes of one row (of the frame with its header in place): the
  observation date, a blank and the hour as a string are parsed into \<open>datetime_utc\<close>,
  NaT when the string does not parse or the date is missing, and five columns are dropped.
\<close>

definition airnow_timestamp :: "(string \<Rightarrow> int option) \<Rightarrow> row \<Rightarrow> cell" where
  "airnow_timestamp parse_dt r =
     to_datetime parse_dt
       (case r ''DateObserved'' of
          Str d \<Rightarrow> Str (d @ '' '' @ astype_str (r ''HourObserved''))
        | _ \<Rightarrow> NA)"

definition airnow_row :: "(string \<Rightarrow> int option) \<Rightarrow> row \<Rightarrow> row" where
  "airnow_row parse_dt r =
     (\<lambda>c. if c \<in> set [''DateObserved'', ''HourObserved'', ''DateLocal'', ''HourLocal'',
                        ''LocalTimeZone''] then NA
          else if c = ''datetime_utc'' then airnow_timestamp parse_dt r
          else r c)"

text \<open>
  AirNow observations: one that parses, two of different pollutants whose hour does not
  parse, and a repetition of the second.
\<close>

definition airnow_obs :: frame where
  "airnow_obs = mk_frame
     [''DateObserved'', ''HourObserved'', ''ReportingArea'', ''ParameterName'', ''AQI'']
     [[Str ''2024-01-01'', Str ''01:00'', Str ''Hilo'', Str ''PM2.5'', Num 21],
      [Str ''2024-01-01'', Num 25, Str ''Hilo'', Str ''PM2.5'', Num 22],
      [Str ''2024-01-01'', Num 25, Str ''Hilo'', Str ''O3'', Num 23],
      [Str ''2024-01-01'', Num 25, Str ''Hilo'', Str ''PM2.5'', Num 24]]"

text \<open>
  What \<open>clean_openmeteo\<close> makes of one row of a frame with the columns \<open>cols\<close> before it
  drops rows: the timestamp and the numeric columns that exist are coerced. A row is
  \<open>core_missing\<close> when every core column that exists is missing in it.
\<close>

definition openmeteo_row ::
  "(string \<Rightarrow> int option) \<Rightarrow> (string \<Rightarrow> int option) \<Rightarrow> string list \<Rightarrow> row \<Rightarrow> row" where
  "openmeteo_row parse_dt parse_num cols r =
     (\<lambda>c. if c = ''datetime_utc'' then to_datetime parse_dt (r c)
          else if c \<in> set num_cols \<and> c \<in> set cols then to_numeric parse_num (r c)
          else r c)"

definition core_missing :: "string list \<Rightarrow> row \<Rightarrow> bool" where
  "core_missing cols r \<longleftrightarrow> (\<forall>c \<in> set core_weather. c \<in> set cols \<longrightarrow> r c = NA)"

text \<open>
  The rule by which \<open>clean_openmeteo\<close> drops the row at position \<open>i\<close> of its input: after
  coercion every core column that exists is missing in it, or an earlier row that has a
  core value has the same coerced timestamp.
\<close>

definition openmeteo_dropped ::
  "(string \<Rightarrow> int option) \<Rightarrow> (string \<Rightarrow> int option) \<Rightarrow> frame \<Rightarrow> nat \<Rightarrow> bool" where
  "openmeteo_dropped parse_dt parse_num df i \<longleftrightarrow>
     core_missing (columns df) (openmeteo_row parse_dt parse_num (columns df) (rows df ! i)) \<or>
     (\<exists>j \<in> {0..<i}.
        \<not> core_missing (columns df) (openmeteo_row parse_dt parse_num (columns df) (rows df ! j)) \<and>
        to_datetime parse_dt ((rows df ! j) ''datetime_utc'')
          = to_datetime parse_dt ((rows df ! i) ''datetime_utc''))"

text \<open>A number parser for the examples.\<close>

definition example_parse_num :: "string \<Rightarrow> int option" where
  "example_parse_num = map_of [(''20'', 20), (''80'', 80), (''1704068100'', 1704068100)]"

text \<open>
  Open-Meteo rows: only the temperature present; all four core fields missing but rain
  present; an unparsable temperature beside a humidity; and a second row for the first
  hour.
\<close>

definition openmeteo_obs :: frame where
  "openmeteo_obs = mk_frame
     [''datetime_utc'', ''temperature_2m'', ''relative_humidity_2m'', ''precipitation'',
      ''wind_speed_10m'', ''rain'']
     [[Str ''2024-01-01 00:00'', Num 20, NA, NA, NA, NA],
      [Str ''2024-01-01 01:00'', NA, NA, NA, NA, Num 1],
      [Str ''2024-01-01 02:00'', Str ''n/a'', Str ''80'', NA, NA, NA],
      [Str ''2024-01-01 00:00'', Num 25, Num 70, Num 0, Num 3, Num 0]]"

definition openmeteo_twice :: frame where
  "openmeteo_twice = mk_frame
     [''datetime_utc'', ''temperature_2m'', ''relative_humidity_2m'', ''precipitation'',
      ''wind_speed_10m'', ''rain'']
     [[Str ''2024-01-01 00:00'', Num 20, Num 70, Num 0, Num 3, Num 0],
      [Str ''2024-01-01 00:00'', Num 21, Num 71, Num 0, Num 4, Num 0]]"

text \<open>
  Two Open-Meteo rows with complete core fields whose timestamps are different texts,
  neither of which reads as a date.
\<close>

definition openmeteo_unparsed :: frame where
  "openmeteo_unparsed = mk_frame
     [''datetime_utc'', ''temperature_2m'', ''relative_humidity_2m'', ''precipitation'',
      ''wind_speed_10m'', ''rain'']
     [[Str ''foo'', Num 20, Num 70, Num 0, Num 3, Num 0],
      [Str ''bar'', Num 21, Num 71, Num 0, Num 4, Num 0]]"

text \<open>
  The five prepared frames of \<open>merge_all\<close>, in join order; the value columns a frame
  brings to a join; the first row of a frame at an instant (all missing when it has
  none); and what the joins and the final \<open>drop_duplicates\<close> leave of a source in the
  row of a grid hour: the value columns of that first row.
\<close>

definition prepare_all :: "(string \<Rightarrow> int option) \<Rightarrow> frame option sources \<Rightarrow> error + frame list" where
  "prepare_all parse_dt files =
     (let raw = load_all parse_dt files
      in bind (prep_aqs (aqs raw)) (\<lambda>aqs.
         bind (prep_airnow (airnow raw)) (\<lambda>airnow.
         bind (prep_purpleair (purpleair raw)) (\<lambda>purpleair.
         bind (prep_openmeteo (openmeteo raw)) (\<lambda>openmeteo.
         bind (prep_hvo (hvo raw)) (\<lambda>hvo.
         Inr [aqs, airnow, purpleair, openmeteo, hvo]))))))"

definition value_columns :: "frame \<Rightarrow> string list" where
  "value_columns df = filter (\<lambda>c. c \<noteq> ''datetime_utc'') (columns df)"

definition first_match :: "cell \<Rightarrow> frame \<Rightarrow> row" where
  "first_match t df =
     (case filter (\<lambda>m. m ''datetime_utc'' = t) (rows df) of [] \<Rightarrow> (\<lambda>c. NA) | m # ms \<Rightarrow> m)"

definition join_first :: "frame \<Rightarrow> row \<Rightarrow> row" where
  "join_first add_df l =
     (if is_empty add_df then l
      else join_row (value_columns add_df) l (first_match (l ''datetime_utc'') add_df))"

text \<open>
  Five interim files over three hours. Two AQS monitors and two PurpleAir sensors report
  at 00:00.
\<close>

definition interim_example :: "frame option sources" where
  "interim_example =
     \<lparr>aqs = Some (mk_frame [''datetime_utc'', ''site_number'', ''sample_measurement'']
              [[Str ''2024-01-01 00:00'', Num 1006, Num 4],
               [Str ''2024-01-01 00:00'', Num 2001, Num 9],
               [Str ''2024-01-01 02:00'', Num 1006, Num 5]]),
      airnow = Some (mk_frame [''datetime_utc'', ''AQI''] [[Str ''2024-01-01 01:00'', Num 21]]),
      purpleair = Some (mk_frame [''datetime_utc'', ''sensor_index'', ''pm2.5_atm'', ''humidity'',
                                  ''temperature'', ''pressure'']
              [[Str ''2024-01-01 00:00'', Num 7, Num 3, Num 60, Num 75, Num 1010],
               [Str ''2024-01-01 00:00'', Num 8, Num 8, Num 61, Num 76, Num 1011]]),
      openmeteo = Some (mk_frame [''datetime_utc'', ''temperature_2m'', ''relative_humidity_2m'',
                                  ''precipitation'', ''rain'', ''wind_speed_10m'',
                                  ''wind_direction_10m'', ''wind_gusts_10m'']
              [[Str ''2024-01-01 01:00'', Num 20, Num 70, Num 0, Num 0, Num 3, Num 90, Num 5]]),
      hvo = Some (mk_frame [''datetime_utc'', ''alertLevel'', ''colorCode'', ''alert_change'',
                            ''color_change'']
              [[Str ''2024-01-01 00:00'', Str ''WATCH'', Str ''ORANGE'', Flag True, Flag True]])\<rparr>"

text \<open>
  Archives and batches for the examples: an AirNow archive of one observation and the
  rows of a later hour; a PurpleAir archive and one sensor's history; an HVO archive and
  a status record; an AQS archive and fetched rows, one of them fetched twice; an
  Open-Meteo archive and a fetched chunk that overlaps it.
\<close>

definition airnow_archive :: frame where
  "airnow_archive = mk_frame [''DateObserved'', ''HourObserved'', ''ReportingArea'', ''ParameterName'', ''AQI'']
     [[Str ''2024-01-01'', Num 0, Str ''Hilo'', Str ''PM2.5'', Num 21]]"

definition airnow_day :: frame where
  "airnow_day = mk_frame [''DateObserved'', ''HourObserved'', ''ReportingArea'', ''ParameterName'', ''AQI'']
     [[Str ''2024-01-01'', Num 1, Str ''Hilo'', Str ''PM2.5'', Num 22]]"

definition purpleair_archive :: frame where
  "purpleair_archive = mk_frame [''time_stamp'', ''pm2.5_atm'', ''sensor_index'']
     [[Num 1704067200, Num 3, Num 7]]"

definition purpleair_history :: frame where
  "purpleair_history = mk_frame [''time_stamp'', ''pm2.5_atm'', ''sensor_index'']
     [[Num 1704070800, Num 4, Num 7]]"

definition hvo_archive :: frame where
  "hvo_archive = mk_frame hvo_fields
     [[Str ''2024-01-01 00:00'', NA, NA, Str ''WATCH'', Str ''ORANGE'', NA, Str ''n1'', NA,
       Str ''Kilauea'', NA, Flag True]]"

definition hvo_record :: row where
  "hvo_record = mk_row [(''timestamp_utc'', Str ''2024-01-01 01:00''), (''alertLevel'', Str ''WATCH''),
     (''colorCode'', Str ''ORANGE''), (''noticeId'', Str ''n1''), (''vName'', Str ''Kilauea'')]"

definition aqs_archive :: frame where
  "aqs_archive = mk_frame
     [''state_code'', ''county_code'', ''site_number'', ''parameter_code'', ''date_local'',
      ''time_local'', ''sample_measurement'']
     [[Num 15, Num 1, Num 1006, Num 88101, Time 1704067200, Str ''00:00'', Num 4]]"

definition aqs_fetched :: frame where
  "aqs_fetched = mk_frame
     [''state_code'', ''county_code'', ''site_number'', ''parameter_code'', ''date_local'',
      ''time_local'', ''sample_measurement'']
     [[Num 15, Num 1, Num 1006, Num 88101, Str ''2024-01-01'', Str ''00:00'', Num 4],
      [Num 15, Num 1, Num 1006, Num 88101, Str ''2024-01-01'', Str ''01:00'', Num 5]]"

definition openmeteo_archive :: frame where
  "openmeteo_archive = mk_frame [''datetime_utc'', ''temperature_2m'']
     [[Time 1704067200, Num 20], [Time 1704070800, Num 21]]"

definition openmeteo_chunk :: frame where
  "openmeteo_chunk = mk_frame [''datetime_utc'', ''temperature_2m'']
     [[Time 1704074400, Num 23], [Time 1704070800, Num 22]]"

section \<open>The error monad and the hourly grid\<close>

subsection \<open>The error monad\<close>

lemma bind_Inr [simp]: "bind (Inr x) f = f x"
  by (simp add: bind_def)

lemma bind_Inl [simp]: "bind (Inl e) f = Inl e"
  by (simp add: bind_def)

lemma bind_eq_Inr: "bind m f = Inr y \<longleftrightarrow> (\<exists>x. m = Inr x \<and> f x = Inr y)"
  by (cases m) simp_all

lemma mapM_all_Inr: "(\<And>x. x \<in> set xs \<Longrightarrow> f x = Inr (g x)) \<Longrightarrow> mapM f xs = Inr (map g xs)"
  by (induction xs) simp_all

subsection \<open>Minimum and maximum over the frames\<close>

lemma times_of_nonempty: "cs \<noteq> [] \<Longrightarrow> \<forall>c \<in> set cs. is_time c \<Longrightarrow> times_of cs \<noteq> []"
  by (cases cs; cases "hd cs") auto

lemma fold_min_Min: "fold min xs (x::int) = Min (insert x (set xs))"
  using Min.set_eq_fold[of x xs] by simp

lemma fold_max_Max: "fold max xs (x::int) = Max (insert x (set xs))"
  using Max.set_eq_fold[of x xs] by simp

lemma series_min_Min: "times_of cs \<noteq> [] \<Longrightarrow> series_min cs = Some (Min (set (times_of cs)))"
  by (cases "times_of cs") (simp_all add: series_min_def fold_min_Min)

lemma series_max_Max: "times_of cs \<noteq> [] \<Longrightarrow> series_max cs = Some (Max (set (times_of cs)))"
  by (cases "times_of cs") (simp_all add: series_max_def fold_max_Max)

lemma fold_ts_min:
  "fold (\<lambda>y cur. if ts_less y cur then y else cur) (map Some xs) (Some x) = Some (fold min xs x)"
  by (induction xs arbitrary: x) (auto simp: min_def)

lemma fold_ts_max:
  "fold (\<lambda>y cur. if ts_less cur y then y else cur) (map Some xs) (Some x) = Some (fold max xs x)"
  by (induction xs arbitrary: x) (auto simp: max_def)

lemma py_min_Some: "xs \<noteq> [] \<Longrightarrow> py_min (map Some xs) = Inr (Some (Min (set xs)))"
  by (cases xs) (simp_all add: fold_ts_min fold_min_Min)

lemma py_max_Some: "xs \<noteq> [] \<Longrightarrow> py_max (map Some xs) = Inr (Some (Max (set xs)))"
  by (cases xs) (simp_all add: fold_ts_max fold_max_Max)

lemma valid_frame_times: "valid_frame df \<Longrightarrow> frame_times df \<noteq> []"
  unfolding valid_frame_def frame_times_def by (intro times_of_nonempty) auto

lemma Min_of_Mins:
  assumes "fs \<noteq> []" "\<And>df. df \<in> set fs \<Longrightarrow> frame_times df \<noteq> []"
  shows "Min (set (map (\<lambda>df. Min (set (frame_times df))) fs)) = Min (set (all_times fs))"
proof (rule sym, rule Min_eqI)
  show "finite (set (all_times fs))" by simp
next
  fix y assume "y \<in> set (all_times fs)"
  then obtain df where df: "df \<in> set fs" "y \<in> set (frame_times df)"
    by (auto simp: all_times_def)
  have "Min (set (map (\<lambda>df. Min (set (frame_times df))) fs)) \<le> Min (set (frame_times df))"
    using df by (intro Min_le) auto
  also have "\<dots> \<le> y" using df by (intro Min_le) auto
  finally show "Min (set (map (\<lambda>df. Min (set (frame_times df))) fs)) \<le> y" .
next
  have "Min (set (map (\<lambda>df. Min (set (frame_times df))) fs))
      \<in> set (map (\<lambda>df. Min (set (frame_times df))) fs)"
    using assms(1) by (intro Min_in) auto
  then obtain df where df: "df \<in> set fs"
    "Min (set (map (\<lambda>df. Min (set (frame_times df))) fs)) = Min (set (frame_times df))" by auto
  have "Min (set (frame_times df)) \<in> set (frame_times df)"
    using assms(2)[OF df(1)] by (intro Min_in) auto
  then show "Min (set (map (\<lambda>df. Min (set (frame_times df))) fs)) \<in> set (all_times fs)"
    using df by (auto simp: all_times_def)
qed

lemma Max_of_Maxs:
  assumes "fs \<noteq> []" "\<And>df. df \<in> set fs \<Longrightarrow> frame_times df \<noteq> []"
  shows "Max (set (map (\<lambda>df. Max (set (frame_times df))) fs)) = Max (set (all_times fs))"
proof (rule sym, rule Max_eqI)
  show "finite (set (all_times fs))" by simp
next
  fix y assume "y \<in> set (all_times fs)"
  then obtain df where df: "df \<in> set fs" "y \<in> set (frame_times df)"
    by (auto simp: all_times_def)
  have "y \<le> Max (set (frame_times df))" using df by (intro Max_ge) auto
  also have "\<dots> \<le> Max (set (map (\<lambda>df. Max (set (frame_times df))) fs))"
    using df by (intro Max_ge) auto
  finally show "y \<le> Max (set (map (\<lambda>df. Max (set (frame_times df))) fs))" .
next
  have "Max (set (map (\<lambda>df. Max (set (frame_times df))) fs))
      \<in> set (map (\<lambda>df. Max (set (frame_times df))) fs)"
    using assms(1) by (intro Max_in) auto
  then obtain df where df: "df \<in> set fs"
    "Max (set (map (\<lambda>df. Max (set (frame_times df))) fs)) = Max (set (frame_times df))" by auto
  have "Max (set (frame_times df)) \<in> set (frame_times df)"
    using assms(2)[OF df(1)] by (intro Max_in) auto
  then show "Max (set (map (\<lambda>df. Max (set (frame_times df))) fs)) \<in> set (all_times fs)"
    using df by (auto simp: all_times_def)
qed

lemma build_hourly_index_valid:
  assumes "fs \<noteq> []" "\<forall>df \<in> set fs. valid_frame df"
  shows "build_hourly_index fs =
    date_range (Some (Min (set (all_times fs)))) (Some (Max (set (all_times fs))))"
proof -
  have ne: "\<And>df. df \<in> set fs \<Longrightarrow> frame_times df \<noteq> []"
    using assms(2) valid_frame_times by blast
  have mins: "mapM (\<lambda>df. bind (get_col ''datetime_utc'' df) (\<lambda>s. Inr (series_min s))) fs
      = Inr (map Some (map (\<lambda>df. Min (set (frame_times df))) fs))"
    unfolding map_map comp_def
  proof (rule mapM_all_Inr)
    fix df assume "df \<in> set fs"
    then show "bind (get_col ''datetime_utc'' df) (\<lambda>s. Inr (series_min s))
         = Inr (Some (Min (set (frame_times df))))"
      using assms(2) ne[of df] series_min_Min[of "map (\<lambda>r. r ''datetime_utc'') (rows df)"]
      by (simp add: valid_frame_def get_col_def frame_times_def)
  qed
  have maxs: "mapM (\<lambda>df. bind (get_col ''datetime_utc'' df) (\<lambda>s. Inr (series_max s))) fs
      = Inr (map Some (map (\<lambda>df. Max (set (frame_times df))) fs))"
    unfolding map_map comp_def
  proof (rule mapM_all_Inr)
    fix df assume "df \<in> set fs"
    then show "bind (get_col ''datetime_utc'' df) (\<lambda>s. Inr (series_max s))
         = Inr (Some (Max (set (frame_times df))))"
      using assms(2) ne[of df] series_max_Max[of "map (\<lambda>r. r ''datetime_utc'') (rows df)"]
      by (simp add: valid_frame_def get_col_def frame_times_def)
  qed
  have lo: "py_min (map Some (map (\<lambda>df. Min (set (frame_times df))) fs))
      = Inr (Some (Min (set (all_times fs))))"
    using assms(1) py_min_Some[of "map (\<lambda>df. Min (set (frame_times df))) fs"]
      Min_of_Mins[OF assms(1) ne] by simp
  have hi: "py_max (map Some (map (\<lambda>df. Max (set (frame_times df))) fs))
      = Inr (Some (Max (set (all_times fs))))"
    using assms(1) py_max_Some[of "map (\<lambda>df. Max (set (frame_times df))) fs"]
      Max_of_Maxs[OF assms(1) ne] by simp
  show ?thesis
    unfolding build_hourly_index_def mins maxs lo hi bind_Inr ..
qed

lemma date_range_props:
  assumes "s \<le> e"
  shows "\<exists>g. date_range (Some s) (Some e) = Inr g \<and> g \<noteq> [] \<and> hd g = s \<and>
       (\<forall>i. Suc i < length g \<longrightarrow> g ! Suc i = g ! i + hour) \<and> sorted_wrt (<) g \<and>
       last g \<le> e \<and> e < last g + hour \<and>
       set g = {t. s \<le> t \<and> t \<le> e \<and> hour dvd (t - s)}"
proof -
  define n where "n = nat ((e - s) div hour + 1)"
  define g where "g = map (\<lambda>k. s + hour * int k) [0..<n]"
  have h: "hour = 3600" by (simp add: hour_def)
  have q: "0 \<le> (e - s) div hour" using assms by (simp add: h pos_imp_zdiv_nonneg_iff)
  then have n: "0 < n" "int n = (e - s) div hour + 1" by (simp_all add: n_def)
  have len: "length g = n" by (simp add: g_def)
  have nth: "\<And>i. i < n \<Longrightarrow> g ! i = s + hour * int i" by (simp add: g_def)
  have ne: "g \<noteq> []" using n len by auto
  have hd: "hd g = s" using ne nth[of 0] n by (simp add: hd_conv_nth)
  have step: "\<forall>i. Suc i < length g \<longrightarrow> g ! Suc i = g ! i + hour"
    using nth len by (simp add: algebra_simps)
  have srt: "sorted_wrt (<) g"
    unfolding sorted_wrt_iff_nth_less using nth len by (simp add: h)
  have last: "last g = s + hour * ((e - s) div hour)"
    using ne nth[of "n - 1"] n len by (simp add: last_conv_nth of_nat_diff)
  have dm: "hour * ((e - s) div hour) = (e - s) - (e - s) mod hour"
    by (simp add: minus_mod_eq_mult_div)
  have m0: "0 \<le> (e - s) mod hour" and m1: "(e - s) mod hour < hour" by (simp_all add: h)
  have b1: "last g \<le> e" unfolding last dm using m0 by linarith
  have b2: "e < last g + hour" unfolding last dm using m1 by linarith
  have st: "set g = {t. s \<le> t \<and> t \<le> e \<and> hour dvd (t - s)}"
  proof (intro set_eqI iffI)
    fix t assume "t \<in> set g"
    then obtain k where k: "k < n" "t = s + hour * int k" by (auto simp: g_def)
    have "int k \<le> (e - s) div hour" using k n by simp
    then have "hour * int k \<le> hour * ((e - s) div hour)" by (simp add: h)
    then have "t \<le> last g" using k last by simp
    then show "t \<in> {t. s \<le> t \<and> t \<le> e \<and> hour dvd (t - s)}"
      using b1 k by (simp add: h)
  next
    fix t assume "t \<in> {t. s \<le> t \<and> t \<le> e \<and> hour dvd (t - s)}"
    then have t: "s \<le> t" "t \<le> e" "hour dvd (t - s)" by auto
    then obtain k where k: "t - s = hour * k" by (auto simp: dvd_def)
    have k0: "0 \<le> k" using t k by (simp add: h zero_le_mult_iff)
    have "hour * k \<le> e - s" using t k by simp
    then have "k \<le> (e - s) div hour" using k0
      by (simp add: h)
    then have "nat k < n" using n k0 by linarith
    moreover have "t = s + hour * int (nat k)" using k k0 by simp
    ultimately show "t \<in> set g" unfolding g_def by (auto intro!: image_eqI[where x="nat k"])
  qed
  show ?thesis
    using ne hd step srt b1 b2 st by (intro exI[of _ g]) (simp add: g_def n_def)
qed

lemma date_range_last_aligned:
  assumes "s \<le> e" "hour dvd (e - s)" "date_range (Some s) (Some e) = Inr g"
  shows "last g = e"
proof -
  from date_range_props[OF assms(1)] assms(3)
  have g: "g \<noteq> []" "set g = {t. s \<le> t \<and> t \<le> e \<and> hour dvd (t - s)}" "last g \<le> e" "sorted_wrt (<) g"
    by auto
  have "e \<in> set g" using assms g by simp
  then obtain i where i: "i < length g" "g ! i = e" by (auto simp: in_set_conv_nth)
  show ?thesis
  proof (cases "i = length g - 1")
    case True then show ?thesis using i g by (simp add: last_conv_nth)
  next
    case False
    then have "g ! i < g ! (length g - 1)"
      using sorted_wrt_nth_less[OF g(4), of i "length g - 1"] i by simp
    then show ?thesis using g i by (simp add: last_conv_nth)
  qed
qed

text \<open>
  Claim C4, as the code has it. For a non-empty list of frames, each with rows and with
  instants only in \<open>datetime_utc\<close>, \<open>build_hourly_index\<close> returns a grid that starts at
  the minimum instant of all frames, steps by exactly one hour, is strictly increasing,
  and holds exactly the instants of the closed interval from the minimum to the maximum
  that lie a whole number of hours after the minimum. Its last element is the last such
  instant: it does not exceed the maximum, is less than an hour below it, and equals the
  maximum when the maximum lies a whole number of hours after the minimum.
\<close>

theorem build_hourly_index_grid:
  assumes "fs \<noteq> []" and "\<forall>df \<in> set fs. valid_frame df"
  shows "\<exists>g. build_hourly_index fs = Inr g \<and> g \<noteq> [] \<and>
       hd g = Min (set (all_times fs)) \<and>
       (\<forall>i. Suc i < length g \<longrightarrow> g ! Suc i = g ! i + hour) \<and> sorted_wrt (<) g \<and>
       last g \<le> Max (set (all_times fs)) \<and> Max (set (all_times fs)) < last g + hour \<and>
       (hour dvd (Max (set (all_times fs)) - Min (set (all_times fs))) \<longrightarrow>
          last g = Max (set (all_times fs))) \<and>
       set g = {t. Min (set (all_times fs)) \<le> t \<and> t \<le> Max (set (all_times fs)) \<and>
                   hour dvd (t - Min (set (all_times fs)))}"
proof -
  have "all_times fs \<noteq> []"
    using assms valid_frame_times by (cases fs) (auto simp: all_times_def)
  then have le: "Min (set (all_times fs)) \<le> Max (set (all_times fs))"
    by (simp add: Min_le_iff)
  from date_range_props[OF le] obtain g where
    g: "date_range (Some (Min (set (all_times fs)))) (Some (Max (set (all_times fs)))) = Inr g"
    and props: "g \<noteq> []" "hd g = Min (set (all_times fs))"
      "\<forall>i. Suc i < length g \<longrightarrow> g ! Suc i = g ! i + hour" "sorted_wrt (<) g"
      "last g \<le> Max (set (all_times fs))" "Max (set (all_times fs)) < last g + hour"
      "set g = {t. Min (set (all_times fs)) \<le> t \<and> t \<le> Max (set (all_times fs)) \<and>
                   hour dvd (t - Min (set (all_times fs)))}"
    by blast
  have "hour dvd (Max (set (all_times fs)) - Min (set (all_times fs))) \<longrightarrow>
          last g = Max (set (all_times fs))"
    using date_range_last_aligned[OF le _ g] by blast
  then show ?thesis
    unfolding build_hourly_index_valid[OF assms] using g props by (intro exI[of _ g]) simp
qed

theorem build_hourly_index_grid_witness:
  "[ts_frame [7200, 0], ts_frame [3600]] \<noteq> [] \<and>
   valid_frame (ts_frame [7200, 0]) \<and> valid_frame (ts_frame [3600]) \<and>
   build_hourly_index [ts_frame [7200, 0], ts_frame [3600]] = Inr [0, 3600, 7200] \<and>
   (\<exists>g. build_hourly_index [ts_frame [7200, 0], ts_frame [3600]] = Inr g \<and> hd g = 0 \<and> last g = 7200)"
  using build_hourly_index_grid[of "[ts_frame [7200, 0], ts_frame [3600]]"]
  by (simp add: valid_frame_def ts_frame_def mk_frame_def mk_row_def all_times_def frame_times_def
      build_hourly_index_def get_col_def series_min_def series_max_def hour_def upt_conv_Cons)

text \<open>
  The last grid element need not be the maximum: with instants 00:00:00 and 01:30:00 the
  grid is 00:00, 01:00, and its last element is half an hour below the maximum.
\<close>

theorem build_hourly_index_last_counterexample:
  "valid_frame (ts_frame [0]) \<and> valid_frame (ts_frame [5400]) \<and>
   Max (set (all_times [ts_frame [0], ts_frame [5400]])) = 5400 \<and>
   build_hourly_index [ts_frame [0], ts_frame [5400]] = Inr [0, 3600] \<and>
   last [0, 3600] \<noteq> Max (set (all_times [ts_frame [0], ts_frame [5400]]))"
  by (simp add: valid_frame_def ts_frame_def mk_frame_def mk_row_def all_times_def frame_times_def
      build_hourly_index_def get_col_def series_min_def series_max_def hour_def upt_conv_Cons)

subsection \<open>Keeping the first row of every key\<close>

lemma keep_first_subset: "set (keep_first k S xs) \<subseteq> set xs"
  by (induction xs arbitrary: S) auto

lemma keep_first_keys: "k ` set (keep_first k S xs) = k ` set xs - S"
  by (induction xs arbitrary: S) auto

lemma keep_first_distinct: "distinct (map k (keep_first k S xs))"
proof (induction xs arbitrary: S)
  case Nil
  then show ?case by simp
next
  case (Cons x xs)
  have "k x \<notin> k ` set (keep_first k (insert (k x) S) xs)"
    by (simp add: keep_first_keys)
  with Cons show ?case by simp
qed

lemma keep_first_append:
  "keep_first k S (xs @ ys) = keep_first k S xs @ keep_first k (S \<union> k ` set xs) ys"
  by (induction xs arbitrary: S) (auto simp: insert_absorb)

lemma keep_first_seen: "k ` set xs \<subseteq> S \<Longrightarrow> keep_first k S xs = []"
  by (induction xs arbitrary: S) auto

lemma keep_first_id:
  "distinct (map k xs) \<Longrightarrow> k ` set xs \<inter> S = {} \<Longrightarrow> keep_first k S xs = xs"
  by (induction xs arbitrary: S) auto

lemma keep_first_idem: "keep_first k S (keep_first k S xs) = keep_first k S xs"
  by (rule keep_first_id) (auto simp: keep_first_distinct keep_first_keys)

lemma keep_first_again:
  "keep_first k {} (keep_first k {} (xs @ ys) @ ys) = keep_first k {} (xs @ ys)"
proof -
  have "k ` set ys \<subseteq> {} \<union> k ` set (keep_first k {} (xs @ ys))"
    by (simp add: keep_first_keys image_Un)
  then show ?thesis
    by (simp only: keep_first_append[of k "{}" "keep_first k {} (xs @ ys)" ys]
        keep_first_idem keep_first_seen append_Nil2)
qed

lemma keep_first_mem:
  "x \<in> set (keep_first k S xs) \<longleftrightarrow>
     (\<exists>ys zs. xs = ys @ x # zs \<and> k x \<notin> S \<and> k x \<notin> k ` set ys)"
proof (induction xs arbitrary: S)
  case Nil
  then show ?case by simp
next
  case (Cons a xs)
  show ?case
  proof
    assume m: "x \<in> set (keep_first k S (a # xs))"
    show "\<exists>ys zs. a # xs = ys @ x # zs \<and> k x \<notin> S \<and> k x \<notin> k ` set ys"
    proof (cases "k a \<in> S")
      case True
      with m Cons obtain ys zs where "xs = ys @ x # zs" "k x \<notin> S" "k x \<notin> k ` set ys"
        by auto
      with True show ?thesis by (intro exI[of _ "a # ys"] exI[of _ zs]) auto
    next
      case False
      show ?thesis
      proof (cases "x = a")
        case True
        with False show ?thesis by (intro exI[of _ "[]"] exI[of _ xs]) auto
      next
        case neq: False
        with m False have "x \<in> set (keep_first k (insert (k a) S) xs)" by simp
        with Cons obtain ys zs where "xs = ys @ x # zs" "k x \<notin> insert (k a) S" "k x \<notin> k ` set ys"
          by blast
        then show ?thesis by (intro exI[of _ "a # ys"] exI[of _ zs]) auto
      qed
    qed
  next
    assume "\<exists>ys zs. a # xs = ys @ x # zs \<and> k x \<notin> S \<and> k x \<notin> k ` set ys"
    then obtain ys zs where d: "a # xs = ys @ x # zs" "k x \<notin> S" "k x \<notin> k ` set ys" by blast
    show "x \<in> set (keep_first k S (a # xs))"
    proof (cases ys)
      case Nil
      with d show ?thesis by simp
    next
      case (Cons b ys')
      with d have e: "a = b" "xs = ys' @ x # zs" "k x \<noteq> k a" "k x \<notin> k ` set ys'" by auto
      then have "x \<in> set (keep_first k (insert (k a) S) xs)" "x \<in> set (keep_first k S xs)"
        using Cons.IH d(2) by blast+
      then show ?thesis by simp
    qed
  qed
qed

subsection \<open>Sorting by timestamp\<close>

lemma sort_values_rows_mset:
  "mset (sort_key f (filter P xs) @ filter (\<lambda>x. \<not> P x) xs) = mset xs"
  by simp

lemma sort_values_Inr:
  "sort_values c df = Inr out \<Longrightarrow>
     columns out = columns df \<and> mset (rows out) = mset (rows df) \<and> c \<in> set (columns df)"
  by (auto simp: sort_values_def split: if_splits)

lemma drop_duplicates_Inr:
  "drop_duplicates cs df = Inr out \<Longrightarrow>
     columns out = columns df \<and> rows out = keep_first (row_key cs) {} (rows df) \<and>
     set cs \<subseteq> set (columns df)"
  by (auto simp: drop_duplicates_def filter_empty_conv split: list.splits)

lemma mset_distinct_map:
  "mset ys = mset xs \<Longrightarrow> distinct (map k xs) \<Longrightarrow> distinct (map k ys)"
proof -
  assume a: "mset ys = mset xs" "distinct (map k xs)"
  have "mset (map k ys) = mset (map k xs)" using a(1) by (metis mset_map)
  then show ?thesis using a(2) by (metis mset_eq_imp_distinct_iff)
qed

subsection \<open>Columns and rows of the frame operations\<close>

lemma mapM_Inr_map:
  "mapM f xs = Inr ys \<Longrightarrow> ys = map (\<lambda>x. projr (f x)) xs \<and> (\<forall>x \<in> set xs. \<exists>y. f x = Inr y)"
proof (induction xs arbitrary: ys)
  case Nil
  then show ?case by simp
next
  case (Cons x xs)
  then show ?case by (auto simp: bind_eq_Inr)
qed

lemma mapM_Inl_elem: "mapM f xs = Inl e \<Longrightarrow> \<exists>x \<in> set xs. f x = Inl e"
proof (induction xs)
  case Nil
  then show ?case by simp
next
  case (Cons x xs)
  then show ?case
    by (cases "f x"; cases "mapM f xs") auto
qed

lemma set_col_map: "set_col c (map g (rows df)) df = assign c g df"
  by (simp add: set_col_def assign_def zip_map2 zip_same_conv_map)

lemma get_col_Inr: "get_col c df = Inr cs \<Longrightarrow> cs = map (\<lambda>r. r c) (rows df) \<and> c \<in> set (columns df)"
  by (auto simp: get_col_def split: if_splits)

subsection \<open>PurpleAir normalizer\<close>

lemma to_datetime_s_error:
  "to_datetime_s parse_num c = Inl e \<Longrightarrow>
     e = ValueError ''non convertible value with the unit s'' \<or>
     e = ValueError ''Out of bounds nanosecond timestamp'' \<or>
     e = TypeError ''bool is not convertible to datetime''"
  by (cases c) (auto simp: epoch_seconds_def split: option.splits if_splits)

lemma clean_purpleair_rows:
  assumes "clean_purpleair parse_num df = Inr out"
  defines "src \<equiv> (if ''time_stamp'' \<in> set (columns df) then ''time_stamp'' else ''last_seen'')"
  shows "src \<in> set (columns df)"
    and "mset (rows out) = mset (keep_first (row_key [''sensor_index'', ''datetime_utc'']) {}
            (map (purpleair_row parse_num src) (rows df)))"
    and "\<forall>r \<in> set (rows df). \<exists>t. to_datetime_s parse_num (r src) = Inr t"
proof -
  from assms(1) obtain epoch ts df3 where
    e: "(if ''time_stamp'' \<in> set (columns df) then get_col ''time_stamp'' df
           else if ''last_seen'' \<in> set (columns df) then get_col ''last_seen'' df
           else Inl (ValueError ''Expected a time_stamp or last_seen column in the data.'')) = Inr epoch"
    and t: "mapM (to_datetime_s parse_num) epoch = Inr ts"
    and d: "drop_duplicates [''sensor_index'', ''datetime_utc'']
              (drop_columns [''time_stamp'', ''last_seen'']
                (set_col ''datetime_utc'' (map floor_cell (map (\<lambda>r. r ''datetime_utc'')
                   (rows (set_col ''datetime_utc'' ts df)))) (set_col ''datetime_utc'' ts df))) = Inr df3"
    and s: "sort_values ''datetime_utc'' df3 = Inr out"
    unfolding clean_purpleair_def
    by (auto simp: bind_eq_Inr Let_def get_col_def[of "''datetime_utc''"] set_col_def[of "''datetime_utc''"] split: if_splits)
  from e show src: "src \<in> set (columns df)"
    by (auto simp: src_def split: if_splits)
  from e src have ep: "epoch = map (\<lambda>r. r src) (rows df)"
    by (auto simp: src_def get_col_def split: if_splits)
  from mapM_Inr_map[OF t] have ts: "ts = map (\<lambda>r. projr (to_datetime_s parse_num (r src))) (rows df)"
    and ok: "\<forall>r \<in> set (rows df). \<exists>t. to_datetime_s parse_num (r src) = Inr t"
    by (simp_all add: ep comp_def)
  show "\<forall>r \<in> set (rows df). \<exists>t. to_datetime_s parse_num (r src) = Inr t" by (rule ok)
  have floor_col: "set_col ''datetime_utc''
         (map floor_cell (map (\<lambda>r. r ''datetime_utc'')
           (rows (assign ''datetime_utc'' (\<lambda>r. projr (to_datetime_s parse_num (r src))) df))))
         (assign ''datetime_utc'' (\<lambda>r. projr (to_datetime_s parse_num (r src))) df)
       = assign ''datetime_utc'' (\<lambda>r. floor_cell (r ''datetime_utc''))
           (assign ''datetime_utc'' (\<lambda>r. projr (to_datetime_s parse_num (r src))) df)"
    unfolding map_map comp_def by (rule set_col_map)
  have rows3: "rows (drop_columns [''time_stamp'', ''last_seen'']
                (set_col ''datetime_utc'' (map floor_cell (map (\<lambda>r. r ''datetime_utc'')
                   (rows (set_col ''datetime_utc'' ts df)))) (set_col ''datetime_utc'' ts df)))
        = map (purpleair_row parse_num src) (rows df)"
    unfolding ts set_col_map floor_col
    using ok by (auto simp: drop_columns_def assign_def comp_def purpleair_row_def fun_eq_iff)
  from drop_duplicates_Inr[OF d]
  have "rows df3 = keep_first (row_key [''sensor_index'', ''datetime_utc'']) {}
            (map (purpleair_row parse_num src) (rows df))"
    unfolding rows3 by blast
  with sort_values_Inr[OF s]
  show "mset (rows out) = mset (keep_first (row_key [''sensor_index'', ''datetime_utc'']) {}
            (map (purpleair_row parse_num src) (rows df)))"
    by simp
qed

lemma bind_eq_Inl: "bind m f = Inl e \<longleftrightarrow> m = Inl e \<or> (\<exists>x. m = Inr x \<and> f x = Inl e)"
  by (cases m) simp_all

lemma drop_duplicates_Inl: "drop_duplicates cs df = Inl e \<Longrightarrow> \<exists>ms. e = KeyError ms"
  by (auto simp: drop_duplicates_def split: list.splits)

lemma sort_values_Inl: "sort_values c df = Inl e \<Longrightarrow> e = KeyError [c]"
  by (auto simp: sort_values_def split: if_splits)

lemma clean_purpleair_errors:
  assumes "clean_purpleair parse_num df = Inl e"
    and "''time_stamp'' \<in> set (columns df) \<or> ''last_seen'' \<in> set (columns df)"
  shows "e = ValueError ''non convertible value with the unit s'' \<or>
         e = ValueError ''Out of bounds nanosecond timestamp'' \<or>
         e = TypeError ''bool is not convertible to datetime'' \<or> (\<exists>ms. e = KeyError ms)"
proof -
  from assms(2) obtain epoch where
    e: "(if ''time_stamp'' \<in> set (columns df) then get_col ''time_stamp'' df
           else if ''last_seen'' \<in> set (columns df) then get_col ''last_seen'' df
           else Inl (ValueError ''Expected a time_stamp or last_seen column in the data.'')) = Inr epoch"
    by (cases "''time_stamp'' \<in> set (columns df)") (auto simp: get_col_def)
  show ?thesis
  proof (cases "mapM (to_datetime_s parse_num) epoch")
    case (Inl e')
    then have "e' = e" using assms(1) unfolding clean_purpleair_def e by simp
    with mapM_Inl_elem[OF Inl] to_datetime_s_error show ?thesis by blast
  next
    case (Inr ts)
    then show ?thesis
      using assms(1) unfolding clean_purpleair_def e
      by (auto simp: bind_eq_Inl Let_def get_col_def[of "''datetime_utc''"] set_col_def[of "''datetime_utc''"]
            dest: drop_duplicates_Inl sort_values_Inl split: if_splits)
  qed
qed

text \<open>
  The error for a missing time column is raised exactly when neither \<open>time_stamp\<close> nor
  \<open>last_seen\<close> is a column. When the function returns a frame, the time source is
  \<open>time_stamp\<close> if that is a column and \<open>last_seen\<close> otherwise; every output row is
  an input row with \<open>datetime_utc\<close> set to the source's epoch seconds floored to the hour
  and the two time columns dropped, and every input row is represented by an output row
  of its sensor and floored hour.
\<close>

lemma clean_purpleair_time_source:
  "(clean_purpleair parse_num df = Inl (ValueError ''Expected a time_stamp or last_seen column in the data.'')
      \<longleftrightarrow> ''time_stamp'' \<notin> set (columns df) \<and> ''last_seen'' \<notin> set (columns df)) \<and>
   (\<forall>out. clean_purpleair parse_num df = Inr out \<longrightarrow>
      (let src = (if ''time_stamp'' \<in> set (columns df) then ''time_stamp'' else ''last_seen'')
       in src \<in> set (columns df) \<and>
          set (rows out) \<subseteq> purpleair_row parse_num src ` set (rows df) \<and>
          (\<forall>r \<in> set (rows df). \<exists>t. to_datetime_s parse_num (r src) = Inr t \<and>
             (\<exists>r' \<in> set (rows out). r' ''sensor_index'' = r ''sensor_index'' \<and>
                                   r' ''datetime_utc'' = floor_cell t))))"
proof (intro conjI allI impI)
  show "clean_purpleair parse_num df = Inl (ValueError ''Expected a time_stamp or last_seen column in the data.'')
      \<longleftrightarrow> ''time_stamp'' \<notin> set (columns df) \<and> ''last_seen'' \<notin> set (columns df)"
  proof
    assume a: "clean_purpleair parse_num df = Inl (ValueError ''Expected a time_stamp or last_seen column in the data.'')"
    show "''time_stamp'' \<notin> set (columns df) \<and> ''last_seen'' \<notin> set (columns df)"
    proof (rule ccontr)
      assume "\<not> (''time_stamp'' \<notin> set (columns df) \<and> ''last_seen'' \<notin> set (columns df))"
      then have "''time_stamp'' \<in> set (columns df) \<or> ''last_seen'' \<in> set (columns df)" by blast
      from clean_purpleair_errors[OF a this] show False by simp
    qed
  next
    assume "''time_stamp'' \<notin> set (columns df) \<and> ''last_seen'' \<notin> set (columns df)"
    then show "clean_purpleair parse_num df = Inl (ValueError ''Expected a time_stamp or last_seen column in the data.'')"
      by (simp add: clean_purpleair_def)
  qed
next
  fix out assume o: "clean_purpleair parse_num df = Inr out"
  define src where "src = (if ''time_stamp'' \<in> set (columns df) then ''time_stamp'' else ''last_seen'')"
  note R = clean_purpleair_rows[OF o, folded src_def]
  let ?K = "row_key [''sensor_index'', ''datetime_utc'']"
  note S = mset_eq_setD[OF R(2)]
  have sub: "set (rows out) \<subseteq> purpleair_row parse_num src ` set (rows df)"
    using keep_first_subset[of ?K "{}" "map (purpleair_row parse_num src) (rows df)"]
    unfolding S by simp
  have rep: "\<forall>r \<in> set (rows df). \<exists>t. to_datetime_s parse_num (r src) = Inr t \<and>
             (\<exists>r' \<in> set (rows out). r' ''sensor_index'' = r ''sensor_index'' \<and>
                                   r' ''datetime_utc'' = floor_cell t)"
  proof
    fix r assume r: "r \<in> set (rows df)"
    with R(3) obtain t where t: "to_datetime_s parse_num (r src) = Inr t" by blast
    have "?K (purpleair_row parse_num src r) \<in> ?K ` set (map (purpleair_row parse_num src) (rows df))"
      using r by auto
    then have "?K (purpleair_row parse_num src r) \<in> ?K ` set (rows out)"
      unfolding S keep_first_keys by simp
    then obtain r' where r': "r' \<in> set (rows out)" "?K r' = ?K (purpleair_row parse_num src r)" by auto
    from r'(2) t have "r' ''sensor_index'' = r ''sensor_index'' \<and> r' ''datetime_utc'' = floor_cell t"
      by (simp add: row_key_def purpleair_row_def)
    with r'(1) t show "\<exists>t. to_datetime_s parse_num (r src) = Inr t \<and>
             (\<exists>r' \<in> set (rows out). r' ''sensor_index'' = r ''sensor_index'' \<and>
                                   r' ''datetime_utc'' = floor_cell t)" by blast
  qed
  show "let src = (if ''time_stamp'' \<in> set (columns df) then ''time_stamp'' else ''last_seen'')
       in src \<in> set (columns df) \<and>
          set (rows out) \<subseteq> purpleair_row parse_num src ` set (rows df) \<and>
          (\<forall>r \<in> set (rows df). \<exists>t. to_datetime_s parse_num (r src) = Inr t \<and>
             (\<exists>r' \<in> set (rows out). r' ''sensor_index'' = r ''sensor_index'' \<and>
                                   r' ''datetime_utc'' = floor_cell t))"
    unfolding Let_def src_def[symmetric] using R(1) sub rep by blast
qed

lemma clean_purpleair_time_source_examples:
  "clean_purpleair example_parse_num purpleair_untimed
      = Inl (ValueError ''Expected a time_stamp or last_seen column in the data.'') \<and>
   (\<exists>out. clean_purpleair example_parse_num purpleair_both = Inr out \<and>
      map (\<lambda>r. r ''datetime_utc'') (rows out) = [Time 1704067200] \<and>
      set (rows out) \<subseteq> purpleair_row example_parse_num ''time_stamp'' ` set (rows purpleair_both)) \<and>
   (\<exists>out. clean_purpleair example_parse_num purpleair_last_seen = Inr out \<and>
      map (\<lambda>r. r ''datetime_utc'') (rows out) = [Time 1704074400] \<and>
      set (rows out) \<subseteq> purpleair_row example_parse_num ''last_seen'' ` set (rows purpleair_last_seen))"
proof -
  have c0: "''time_stamp'' \<notin> set (columns purpleair_untimed) \<and> ''last_seen'' \<notin> set (columns purpleair_untimed)"
    by code_simp
  have c1: "''time_stamp'' \<in> set (columns purpleair_both)" by code_simp
  have c2: "''time_stamp'' \<notin> set (columns purpleair_last_seen)" by code_simp
  have e1: "map_sum id (\<lambda>out. map (\<lambda>r. r ''datetime_utc'') (rows out)) (clean_purpleair example_parse_num purpleair_both)
      = Inr [Time 1704067200]" by code_simp
  have e2: "map_sum id (\<lambda>out. map (\<lambda>r. r ''datetime_utc'') (rows out)) (clean_purpleair example_parse_num purpleair_last_seen)
      = Inr [Time 1704074400]" by code_simp
  from e1 obtain o1 where o1: "clean_purpleair example_parse_num purpleair_both = Inr o1"
    "map (\<lambda>r. r ''datetime_utc'') (rows o1) = [Time 1704067200]"
    by (cases "clean_purpleair example_parse_num purpleair_both") auto
  from e2 obtain o2 where o2: "clean_purpleair example_parse_num purpleair_last_seen = Inr o2"
    "map (\<lambda>r. r ''datetime_utc'') (rows o2) = [Time 1704074400]"
    by (cases "clean_purpleair example_parse_num purpleair_last_seen") auto
  from clean_purpleair_time_source[of example_parse_num purpleair_untimed] c0
  have "clean_purpleair example_parse_num purpleair_untimed
      = Inl (ValueError ''Expected a time_stamp or last_seen column in the data.'')" by blast
  moreover from clean_purpleair_time_source[of example_parse_num purpleair_both] o1(1) c1
  have "set (rows o1) \<subseteq> purpleair_row example_parse_num ''time_stamp'' ` set (rows purpleair_both)"
    by (simp add: Let_def)
  moreover from clean_purpleair_time_source[of example_parse_num purpleair_last_seen] o2(1) c2
  have "set (rows o2) \<subseteq> purpleair_row example_parse_num ''last_seen'' ` set (rows purpleair_last_seen)"
    by (simp add: Let_def)
  ultimately show ?thesis using o1 o2 by simp
qed

text \<open>
  Claim C8 against the code. The claim has \<open>clean_purpleair\<close> fail exactly when neither
  time column exists, and the failure policy it belongs to has value-level parse failures
  coerced to missing rather than aborting the frame. The other four normalizers convert
  their timestamps with \<open>errors="coerce"\<close>; \<open>clean_purpleair\<close> converts without it. On a
  frame that has the column \<open>time_stamp\<close>, with epoch seconds in the first row and a text
  that is no number in the second, the conversion raises \<open>ValueError\<close> and no frame is
  returned.
\<close>

theorem clean_purpleair_unconvertible_value:
  "''time_stamp'' \<in> set (columns purpleair_unconvertible) \<and>
   clean_purpleair example_parse_num purpleair_unconvertible
     = Inl (ValueError ''non convertible value with the unit s'')"
proof -
  have "map_sum id columns (clean_purpleair example_parse_num purpleair_unconvertible)
          = Inl (ValueError ''non convertible value with the unit s'')"
    by code_simp
  then have "clean_purpleair example_parse_num purpleair_unconvertible
               = Inl (ValueError ''non convertible value with the unit s'')"
    by (cases "clean_purpleair example_parse_num purpleair_unconvertible") auto
  moreover have "''time_stamp'' \<in> set (columns purpleair_unconvertible)" by code_simp
  ultimately show ?thesis by simp
qed

subsection \<open>Empty sources in the grid builder\<close>

text \<open>
  Claim C5 against the code. With the AQS file present and the other four absent,
  \<open>merge_all\<close> raises \<open>KeyError\<close>: \<open>_read\<close> gives a frame without columns for an absent
  file, the \<open>prep\<close> functions hand it on, and \<open>build_hourly_index\<close> asks every frame for
  \<open>datetime_utc\<close>. A frame with that column but no rows makes the grid builder fail as
  well when it comes first (its minimum is NaT and stays the candidate), and is passed
  over when it comes later.
\<close>

theorem merge_all_absent_source:
  "merge_all example_parse_dt only_aqs = Inl (KeyError [''datetime_utc'']) \<and>
   build_hourly_index [ts_frame [0, 3600], empty_frame] = Inl (KeyError [''datetime_utc'']) \<and>
   build_hourly_index [mk_frame [''datetime_utc''] [], ts_frame [0, 3600]]
     = Inl (ValueError ''Neither start nor end can be NaT'') \<and>
   build_hourly_index [ts_frame [0, 3600], mk_frame [''datetime_utc''] []] = Inr [0, 3600]"
proof -
  have "map_sum id columns (merge_all example_parse_dt only_aqs) = Inl (KeyError [''datetime_utc''])"
    by code_simp
  then have "merge_all example_parse_dt only_aqs = Inl (KeyError [''datetime_utc''])"
    by (cases "merge_all example_parse_dt only_aqs") simp_all
  moreover have
    "build_hourly_index [ts_frame [0, 3600], empty_frame] = Inl (KeyError [''datetime_utc''])"
    "build_hourly_index [mk_frame [''datetime_utc''] [], ts_frame [0, 3600]]
       = Inl (ValueError ''Neither start nor end can be NaT'')"
    "build_hourly_index [ts_frame [0, 3600], mk_frame [''datetime_utc''] []] = Inr [0, 3600]"
    by code_simp+
  ultimately show ?thesis by simp
qed

subsection \<open>AQS normalizer\<close>

text \<open>
  Claim C2 against the code. \<open>clean_aqs\<close> removes duplicates before it floors the
  timestamps: two samples of one monitor and pollutant at 10:00 and 10:30 both survive
  and both end at 10:00, so the returned frame has two rows with the same timestamp and
  identity key.
\<close>

theorem clean_aqs_duplicate_after_floor:
  "\<exists>out. clean_aqs example_parse_dt aqs_half_hour = Inr out \<and>
     map (row_key [''datetime_utc'', ''state_code'', ''county_code'', ''site_number'',
                   ''parameter_code'']) (rows out)
       = [[Time 1704103200, Num 15, Num 1, Num 1006, Num 88101],
          [Time 1704103200, Num 15, Num 1, Num 1006, Num 88101]]"
proof -
  have "map_sum id
     (\<lambda>out. map (row_key [''datetime_utc'', ''state_code'', ''county_code'', ''site_number'',
                            ''parameter_code'']) (rows out))
     (clean_aqs example_parse_dt aqs_half_hour)
   = Inr [[Time 1704103200, Num 15, Num 1, Num 1006, Num 88101],
          [Time 1704103200, Num 15, Num 1, Num 1006, Num 88101]]"
    by code_simp
  then show ?thesis
    by (cases "clean_aqs example_parse_dt aqs_half_hour") simp_all
qed

subsection \<open>HVO normalizer\<close>

lemma length_shift [simp]: "length (shift cs) = length cs"
  by (cases cs) (simp_all add: shift_def)


lemma length_series_ne [simp]: "length (series_ne xs ys) = min (length xs) (length ys)"
  by (simp add: series_ne_def)




lemma columns_set_col: "set (columns (set_col c vs df)) = insert c (set (columns df))"
  by (auto simp: set_col_def)





subsection \<open>AirNow normalizer\<close>

lemma cell_add_Str_Inr:
  "cell_add d (Str s) = Inr x \<Longrightarrow> x = (case d of Str a \<Rightarrow> Str (a @ s) | _ \<Rightarrow> NA)"
  by (cases d) auto

lemma clean_airnow_rows:
  assumes "clean_airnow parse_dt df = Inr out"
  obtains df1 where "with_airnow_header df = Inr df1"
    and "mset (rows out) = mset (keep_first (row_key [''ReportingArea'', ''ParameterName'', ''datetime_utc'']) {}
            (map (airnow_row parse_dt) (rows df1)))"
proof -
  from assms obtain df1 date date_sp hr combined df4 where
    h: "with_airnow_header df = Inr df1"
    and d: "get_col ''DateObserved'' df1 = Inr date"
    and ds: "mapM (\<lambda>d. cell_add d (Str '' '')) date = Inr date_sp"
    and hr: "get_col ''HourObserved'' df1 = Inr hr"
    and cb: "mapM (\<lambda>(d, h). cell_add d (Str (astype_str h))) (zip date_sp hr) = Inr combined"
    and dd: "drop_duplicates [''ReportingArea'', ''ParameterName'', ''datetime_utc'']
              (drop_columns [''DateObserved'', ''HourObserved'', ''DateLocal'',
                            ''HourLocal'', ''LocalTimeZone'']
                (set_col ''datetime_utc'' (map (to_datetime parse_dt) combined) df1)) = Inr df4"
    and s: "sort_values ''datetime_utc'' df4 = Inr out"
    unfolding clean_airnow_def Let_def by (auto simp: bind_eq_Inr)
  have date: "date = map (\<lambda>r. r ''DateObserved'') (rows df1)"
    and hour: "hr = map (\<lambda>r. r ''HourObserved'') (rows df1)"
    using get_col_Inr[OF d] get_col_Inr[OF hr] by simp_all
  from mapM_Inr_map[OF ds]
  have dsp: "date_sp = map (\<lambda>r. projr (cell_add (r ''DateObserved'') (Str '' ''))) (rows df1)"
    and ok1: "\<forall>r \<in> set (rows df1). \<exists>y. cell_add (r ''DateObserved'') (Str '' '') = Inr y"
    by (simp_all add: date comp_def)
  have z: "zip date_sp hr
      = map (\<lambda>r. (projr (cell_add (r ''DateObserved'') (Str '' '')), r ''HourObserved'')) (rows df1)"
    unfolding dsp hour by (simp add: zip_map_map zip_same_conv_map)
  from mapM_Inr_map[OF cb]
  have comb: "combined = map (\<lambda>r. projr (cell_add (projr (cell_add (r ''DateObserved'') (Str '' '')))
                                              (Str (astype_str (r ''HourObserved''))))) (rows df1)"
    and ok2: "\<forall>r \<in> set (rows df1). \<exists>y.
                cell_add (projr (cell_add (r ''DateObserved'') (Str '' '')))
                         (Str (astype_str (r ''HourObserved''))) = Inr y"
    unfolding z by (simp_all add: comp_def)
  have ts: "map (to_datetime parse_dt) combined = map (airnow_timestamp parse_dt) (rows df1)"
    unfolding comb map_map comp_def
  proof (rule map_cong[OF refl])
    fix r assume r: "r \<in> set (rows df1)"
    from ok1 r obtain y where y: "cell_add (r ''DateObserved'') (Str '' '') = Inr y" by blast
    from ok2 r y obtain y' where y': "cell_add y (Str (astype_str (r ''HourObserved''))) = Inr y'"
      by auto
    from cell_add_Str_Inr[OF y] cell_add_Str_Inr[OF y']
    have "y' = (case r ''DateObserved'' of
                  Str d \<Rightarrow> Str (d @ '' '' @ astype_str (r ''HourObserved'')) | _ \<Rightarrow> NA)"
      by (cases "r ''DateObserved''") simp_all
    then show "to_datetime parse_dt
          (projr (cell_add (projr (cell_add (r ''DateObserved'') (Str '' '')))
                           (Str (astype_str (r ''HourObserved'')))))
        = airnow_timestamp parse_dt r"
      by (simp add: y y' airnow_timestamp_def)
  qed
  have rows3: "rows (drop_columns [''DateObserved'', ''HourObserved'', ''DateLocal'',
                            ''HourLocal'', ''LocalTimeZone'']
                (set_col ''datetime_utc'' (map (to_datetime parse_dt) combined) df1))
      = map (airnow_row parse_dt) (rows df1)"
    unfolding ts set_col_map
    by (auto simp: drop_columns_def assign_def airnow_row_def fun_eq_iff)
  from drop_duplicates_Inr[OF dd]
  have "rows df4 = keep_first (row_key [''ReportingArea'', ''ParameterName'', ''datetime_utc'']) {}
            (map (airnow_row parse_dt) (rows df1))"
    unfolding rows3 by blast
  with sort_values_Inr[OF s] h that show ?thesis by simp
qed

text \<open>
  Claim C9. \<open>clean_airnow\<close> filters no row: the rows it returns are, up to the order the
  sort gives them, the first row of every (ReportingArea, ParameterName, datetime_utc)
  key among all input rows, so there are as many output rows as distinct keys. Every
  input row is represented by an output row of its area, pollutant and timestamp; a row
  whose date and hour do not parse has the timestamp NaT, and an output row of its area
  and pollutant with the timestamp NaT exists.
\<close>

theorem clean_airnow_keeps_unparsable:
  assumes "clean_airnow parse_dt df = Inr out"
  shows "\<exists>df1. with_airnow_header df = Inr df1 \<and>
     mset (rows out) = mset (keep_first (row_key [''ReportingArea'', ''ParameterName'', ''datetime_utc'']) {}
            (map (airnow_row parse_dt) (rows df1))) \<and>
     length (rows out) = card ((\<lambda>r. (r ''ReportingArea'', r ''ParameterName'', airnow_timestamp parse_dt r))
                                ` set (rows df1)) \<and>
     (\<forall>r \<in> set (rows df1). \<exists>r' \<in> set (rows out).
         r' ''ReportingArea'' = r ''ReportingArea'' \<and> r' ''ParameterName'' = r ''ParameterName'' \<and>
         r' ''datetime_utc'' = airnow_timestamp parse_dt r) \<and>
     (\<forall>r \<in> set (rows df1). airnow_timestamp parse_dt r = NA \<longrightarrow>
         (\<exists>r' \<in> set (rows out).
            r' ''ReportingArea'' = r ''ReportingArea'' \<and> r' ''ParameterName'' = r ''ParameterName'' \<and>
            r' ''datetime_utc'' = NA))"
proof -
  let ?K = "row_key [''ReportingArea'', ''ParameterName'', ''datetime_utc'']"
  let ?T = "airnow_row parse_dt"
  from clean_airnow_rows[OF assms] obtain df1 where
    h: "with_airnow_header df = Inr df1"
    and m: "mset (rows out) = mset (keep_first ?K {} (map ?T (rows df1)))"
    by blast
  note S = mset_eq_setD[OF m]
  have key: "?K (?T r) = [r ''ReportingArea'', r ''ParameterName'', airnow_timestamp parse_dt r]" for r
    by (simp add: row_key_def airnow_row_def)
  have rep: "\<exists>r' \<in> set (rows out).
         r' ''ReportingArea'' = r ''ReportingArea'' \<and> r' ''ParameterName'' = r ''ParameterName'' \<and>
         r' ''datetime_utc'' = airnow_timestamp parse_dt r" if r: "r \<in> set (rows df1)" for r
  proof -
    have "?K (?T r) \<in> ?K ` set (map ?T (rows df1))" using r by auto
    then have "?K (?T r) \<in> ?K ` set (rows out)" unfolding S keep_first_keys by simp
    then obtain r' where r': "r' \<in> set (rows out)" "?K r' = ?K (?T r)" by auto
    from r'(2) have "r' ''ReportingArea'' = r ''ReportingArea'' \<and> r' ''ParameterName'' = r ''ParameterName'' \<and>
         r' ''datetime_utc'' = airnow_timestamp parse_dt r"
      unfolding key by (simp add: row_key_def)
    with r'(1) show ?thesis by blast
  qed
  have "length (rows out) = length (keep_first ?K {} (map ?T (rows df1)))"
    using m by (metis size_mset)
  also have "\<dots> = length (map ?K (keep_first ?K {} (map ?T (rows df1))))" by simp
  also have "\<dots> = card (set (map ?K (keep_first ?K {} (map ?T (rows df1)))))"
    by (rule distinct_card[symmetric]) (rule keep_first_distinct)
  also have "set (map ?K (keep_first ?K {} (map ?T (rows df1)))) = (\<lambda>r. ?K (?T r)) ` set (rows df1)"
    by (simp add: keep_first_keys image_image)
  also have "card ((\<lambda>r. ?K (?T r)) ` set (rows df1))
      = card ((\<lambda>r. (r ''ReportingArea'', r ''ParameterName'', airnow_timestamp parse_dt r)) ` set (rows df1))"
  proof -
    have "(\<lambda>r. ?K (?T r)) ` set (rows df1)
        = (\<lambda>(a, b, c). [a, b, c]) ` (\<lambda>r. (r ''ReportingArea'', r ''ParameterName'', airnow_timestamp parse_dt r)) ` set (rows df1)"
      by (simp add: image_image key)
    moreover have "inj (\<lambda>(a::cell, b::cell, c::cell). [a, b, c])"
      by (auto simp: inj_on_def)
    ultimately show ?thesis
      by (simp only: card_image[OF inj_on_subset[OF _ subset_UNIV]])
  qed
  finally have len: "length (rows out) = card ((\<lambda>r. (r ''ReportingArea'', r ''ParameterName'', airnow_timestamp parse_dt r))
                                ` set (rows df1))" .
  have rep_na: "\<forall>r \<in> set (rows df1). airnow_timestamp parse_dt r = NA \<longrightarrow>
         (\<exists>r' \<in> set (rows out).
            r' ''ReportingArea'' = r ''ReportingArea'' \<and> r' ''ParameterName'' = r ''ParameterName'' \<and>
            r' ''datetime_utc'' = NA)"
    using rep by metis
  show ?thesis
    using h m len rep rep_na by (intro exI[of _ df1] conjI ballI) auto
qed

theorem clean_airnow_keeps_unparsable_witness:
  "\<exists>out. clean_airnow example_parse_dt airnow_obs = Inr out \<and>
     map (\<lambda>r. (r ''ParameterName'', r ''datetime_utc'', r ''AQI'')) (rows out)
       = [(Str ''PM2.5'', Time 1704070800, Num 21), (Str ''PM2.5'', NA, Num 22),
          (Str ''O3'', NA, Num 23)] \<and>
     (\<exists>r' \<in> set (rows out). r' ''ReportingArea'' = Str ''Hilo'' \<and>
        r' ''ParameterName'' = Str ''O3'' \<and> r' ''datetime_utc'' = NA)"
proof -
  have "map_sum id (\<lambda>out. map (\<lambda>r. (r ''ParameterName'', r ''datetime_utc'', r ''AQI'')) (rows out))
          (clean_airnow example_parse_dt airnow_obs)
      = Inr [(Str ''PM2.5'', Time 1704070800, Num 21), (Str ''PM2.5'', NA, Num 22),
             (Str ''O3'', NA, Num 23)]"
    by code_simp
  then obtain out where o: "clean_airnow example_parse_dt airnow_obs = Inr out"
    and v: "map (\<lambda>r. (r ''ParameterName'', r ''datetime_utc'', r ''AQI'')) (rows out)
       = [(Str ''PM2.5'', Time 1704070800, Num 21), (Str ''PM2.5'', NA, Num 22),
          (Str ''O3'', NA, Num 23)]"
    by (cases "clean_airnow example_parse_dt airnow_obs") auto
  have h: "with_airnow_header airnow_obs = Inr airnow_obs"
    by (simp add: with_airnow_header_def airnow_obs_def mk_frame_def mk_row_def)
  have r: "rows airnow_obs ! 2 \<in> set (rows airnow_obs)"
    by (rule nth_mem) (simp add: airnow_obs_def mk_frame_def)
  have n: "airnow_timestamp example_parse_dt (rows airnow_obs ! 2) = NA"
    "(rows airnow_obs ! 2) ''ReportingArea'' = Str ''Hilo''"
    "(rows airnow_obs ! 2) ''ParameterName'' = Str ''O3''"
    by code_simp+
  from clean_airnow_keeps_unparsable[OF o] obtain df1 where
    h1: "with_airnow_header airnow_obs = Inr df1"
    and na: "\<forall>r \<in> set (rows df1). airnow_timestamp example_parse_dt r = NA \<longrightarrow>
         (\<exists>r' \<in> set (rows out).
            r' ''ReportingArea'' = r ''ReportingArea'' \<and> r' ''ParameterName'' = r ''ParameterName'' \<and>
            r' ''datetime_utc'' = NA)"
    by blast
  have "df1 = airnow_obs" using h h1 by simp
  from na[unfolded this, rule_format, OF r n(1)]
  have "\<exists>r' \<in> set (rows out). r' ''ReportingArea'' = Str ''Hilo'' \<and>
        r' ''ParameterName'' = Str ''O3'' \<and> r' ''datetime_utc'' = NA"
    unfolding n(2,3) .
  with o v show ?thesis by (intro exI[of _ out]) simp
qed

subsection \<open>Open-Meteo normalizer\<close>

lemma fold_assign_cols:
  "distinct cs \<Longrightarrow>
   columns (fold (\<lambda>col df. if col \<in> set (columns df) then assign col (\<lambda>r. g (r col)) df else df) cs df)
     = columns df \<and>
   rows (fold (\<lambda>col df. if col \<in> set (columns df) then assign col (\<lambda>r. g (r col)) df else df) cs df)
     = map (\<lambda>r c. if c \<in> set cs \<and> c \<in> set (columns df) then g (r c) else r c) (rows df)"
proof (induction cs arbitrary: df)
  case Nil
  then show ?case by simp
next
  case (Cons col cs)
  let ?df = "if col \<in> set (columns df) then assign col (\<lambda>r. g (r col)) df else df"
  have c: "columns ?df = columns df" by (simp add: assign_def)
  have r: "rows ?df = map (\<lambda>r. if col \<in> set (columns df) then r(col := g (r col)) else r) (rows df)"
    by (simp add: assign_def)
  from Cons.prems have d: "distinct cs" "col \<notin> set cs" by simp_all
  note IH = Cons.IH[OF d(1), of ?df, unfolded c]
  show ?case
    unfolding fold_simps IH[THEN conjunct1] IH[THEN conjunct2] r
    using d(2) by (auto simp: fun_eq_iff)
qed

lemma clean_openmeteo_rows:
  assumes "clean_openmeteo parse_dt parse_num df = Inr out"
  shows "mset (rows out) = mset (keep_first (row_key [''datetime_utc'']) {}
           (filter (\<lambda>r. \<not> core_missing (columns df) r)
              (map (openmeteo_row parse_dt parse_num (columns df)) (rows df))))"
proof -
  define df1 where "df1 = assign ''datetime_utc'' (\<lambda>r. to_datetime parse_dt (r ''datetime_utc'')) df"
  define df2 where "df2 = fold (\<lambda>col df. if col \<in> set (columns df)
                                  then assign col (\<lambda>r. to_numeric parse_num (r col)) df else df)
                      num_cols df1"
  from assms have dt: "''datetime_utc'' \<in> set (columns df)"
    unfolding clean_openmeteo_def by (auto split: if_splits)
  from assms dt obtain df3 df4 where
    n: "dropna_all (filter (\<lambda>c. c \<in> set (columns df2)) core_weather) df2 = Inr df3"
    and d: "drop_duplicates [''datetime_utc''] df3 = Inr df4"
    and s: "sort_values ''datetime_utc'' df4 = Inr out"
    unfolding clean_openmeteo_def Let_def df1_def[symmetric] df2_def[symmetric]
    by (auto simp: bind_eq_Inr)
  have c1: "columns df1 = columns df" using dt by (simp add: df1_def assign_def)
  have dn: "distinct num_cols" by (simp add: num_cols_def)
  note F = fold_assign_cols[OF dn, of "to_numeric parse_num" df1, folded df2_def, unfolded c1]
  have nd: "''datetime_utc'' \<notin> set num_cols" by (simp add: num_cols_def)
  have r2: "rows df2 = map (openmeteo_row parse_dt parse_num (columns df)) (rows df)"
    unfolding F[THEN conjunct2] df1_def using nd
    by (auto simp: assign_def openmeteo_row_def fun_eq_iff)
  have r3: "rows df3 = filter (\<lambda>r. \<not> core_missing (columns df) r) (rows df2)"
    using n unfolding dropna_all_def F[THEN conjunct1]
    by (auto simp: core_missing_def split: list.splits intro!: filter_cong)
  from drop_duplicates_Inr[OF d] sort_values_Inr[OF s] show ?thesis
    by (simp add: r3 r2)
qed

lemma keep_first_filter_positions:
  "keep_first k S (filter P xs)
     = map (nth xs) (filter (\<lambda>i. P (xs ! i) \<and> k (xs ! i) \<notin> S \<and>
                                  \<not> (\<exists>j < i. P (xs ! j) \<and> k (xs ! j) = k (xs ! i)))
                            [0..<length xs])"
proof (induction xs rule: rev_induct)
  case Nil
  then show ?case by simp
next
  case (snoc x xs)
  let ?Q = "\<lambda>ys i. P (ys ! i) \<and> k (ys ! i) \<notin> S \<and> \<not> (\<exists>j < i. P (ys ! j) \<and> k (ys ! j) = k (ys ! i))"
  have old: "filter (?Q (xs @ [x])) [0..<length xs] = filter (?Q xs) [0..<length xs]"
    by (rule filter_cong) (auto simp: nth_append)
  have old_map: "map (nth (xs @ [x])) (filter (?Q xs) [0..<length xs])
                   = map (nth xs) (filter (?Q xs) [0..<length xs])"
    by (rule map_cong) (auto simp: nth_append)
  have seen: "k x \<in> k ` set (filter P xs) \<longleftrightarrow> (\<exists>j < length xs. P (xs ! j) \<and> k (xs ! j) = k x)"
    by (auto simp: in_set_conv_nth image_iff)
  have last: "?Q (xs @ [x]) (length xs) \<longleftrightarrow> P x \<and> k x \<notin> S \<union> k ` set (filter P xs)"
    unfolding Un_iff seen by (auto simp: nth_append)
  have split: "[0..<length (xs @ [x])] = [0..<length xs] @ [length xs]" by simp
  have R: "map (nth (xs @ [x])) (filter (?Q (xs @ [x])) [0..<length (xs @ [x])])
             = map (nth xs) (filter (?Q xs) [0..<length xs])
               @ (if ?Q (xs @ [x]) (length xs) then [x] else [])"
    unfolding split filter_append map_append old old_map by simp
  have "keep_first k S (filter P (xs @ [x]))
          = keep_first k S (filter P xs) @ keep_first k (S \<union> k ` set (filter P xs)) (filter P [x])"
    by (simp only: filter_append keep_first_append)
  also have "keep_first k (S \<union> k ` set (filter P xs)) (filter P [x])
          = (if ?Q (xs @ [x]) (length xs) then [x] else [])"
    unfolding last by simp
  finally have "keep_first k S (filter P (xs @ [x]))
          = map (nth xs) (filter (?Q xs) [0..<length xs])
            @ (if ?Q (xs @ [x]) (length xs) then [x] else [])"
    unfolding snoc.IH .
  then show ?case unfolding R .
qed

lemma clean_openmeteo_positions:
  assumes "clean_openmeteo parse_dt parse_num df = Inr out"
  shows "mset (rows out)
           = mset (map (\<lambda>i. openmeteo_row parse_dt parse_num (columns df) (rows df ! i))
                       (filter (\<lambda>i. \<not> openmeteo_dropped parse_dt parse_num df i)
                               [0..<length (rows df)]))"
proof -
  let ?K = "row_key [''datetime_utc'']"
  let ?T = "openmeteo_row parse_dt parse_num (columns df)"
  let ?P = "\<lambda>r. \<not> core_missing (columns df) r"
  let ?xs = "map ?T (rows df)"
  have key: "?K (?T r) = [to_datetime parse_dt (r ''datetime_utc'')]" for r
    by (simp add: row_key_def openmeteo_row_def)
  have f: "filter (\<lambda>i. ?P (?xs ! i) \<and> ?K (?xs ! i) \<notin> {} \<and>
                          \<not> (\<exists>j < i. ?P (?xs ! j) \<and> ?K (?xs ! j) = ?K (?xs ! i)))
                  [0..<length ?xs]
           = filter (\<lambda>i. \<not> openmeteo_dropped parse_dt parse_num df i) [0..<length (rows df)]"
    unfolding length_map
    by (rule filter_cong) (auto simp: openmeteo_dropped_def key)
  have m: "map (nth ?xs) (filter (\<lambda>i. \<not> openmeteo_dropped parse_dt parse_num df i) [0..<length (rows df)])
           = map (\<lambda>i. ?T (rows df ! i))
               (filter (\<lambda>i. \<not> openmeteo_dropped parse_dt parse_num df i) [0..<length (rows df)])"
    by (rule map_cong) auto
  show ?thesis
    unfolding clean_openmeteo_rows[OF assms] keep_first_filter_positions[of ?K "{}" ?P ?xs] f m ..
qed

text \<open>
  Claim C7, as the code has it. \<open>clean_openmeteo\<close> coerces the timestamp and the numeric
  columns of every row; a timestamp that does not read as a date becomes NaT and a value
  that does not read as a number becomes missing. Up to the order the sort gives them,
  the rows returned are the coerced input rows at the positions that are not dropped,
  and the row at a position is dropped exactly when every core column that exists is
  missing in it or an earlier row with a core value has the same coerced timestamp (NaT
  is one timestamp). So no returned row has all its core fields missing; an input row
  with a core field present after coercion is returned or stands behind an earlier such
  row of the same coerced timestamp; and when the coerced timestamps of the input are
  pairwise different, the rows dropped are exactly those whose existing core fields are
  all missing.
\<close>

theorem clean_openmeteo_drop_rule:
  assumes "clean_openmeteo parse_dt parse_num df = Inr out"
  shows "mset (rows out)
           = mset (map (\<lambda>i. openmeteo_row parse_dt parse_num (columns df) (rows df ! i))
                       (filter (\<lambda>i. \<not> openmeteo_dropped parse_dt parse_num df i)
                               [0..<length (rows df)])) \<and>
         mset (rows out) = mset (keep_first (row_key [''datetime_utc'']) {}
           (filter (\<lambda>r. \<not> core_missing (columns df) r)
              (map (openmeteo_row parse_dt parse_num (columns df)) (rows df)))) \<and>
         (\<forall>r' \<in> set (rows out). \<not> core_missing (columns df) r' \<and>
             r' \<in> openmeteo_row parse_dt parse_num (columns df) ` set (rows df)) \<and>
         (\<forall>r \<in> set (rows df).
             \<not> core_missing (columns df) (openmeteo_row parse_dt parse_num (columns df) r) \<longrightarrow>
             (\<exists>r' \<in> set (rows out).
                r' ''datetime_utc'' = to_datetime parse_dt (r ''datetime_utc''))) \<and>
         (distinct (map (\<lambda>r. to_datetime parse_dt (r ''datetime_utc'')) (rows df)) \<longrightarrow>
            mset (rows out) = mset (filter (\<lambda>r. \<not> core_missing (columns df) r)
              (map (openmeteo_row parse_dt parse_num (columns df)) (rows df))))"
proof -
  let ?K = "row_key [''datetime_utc'']"
  let ?T = "openmeteo_row parse_dt parse_num (columns df)"
  let ?kept = "filter (\<lambda>r. \<not> core_missing (columns df) r) (map ?T (rows df))"
  note m = clean_openmeteo_rows[OF assms]
  note S = mset_eq_setD[OF m]
  have key: "?K (?T r) = [to_datetime parse_dt (r ''datetime_utc'')]" for r
    by (simp add: row_key_def openmeteo_row_def)
  have P2: "\<forall>r' \<in> set (rows out). \<not> core_missing (columns df) r' \<and> r' \<in> ?T ` set (rows df)"
    using keep_first_subset[of ?K "{}" ?kept] unfolding S by auto
  have P3: "\<forall>r \<in> set (rows df). \<not> core_missing (columns df) (?T r) \<longrightarrow>
             (\<exists>r' \<in> set (rows out). r' ''datetime_utc'' = to_datetime parse_dt (r ''datetime_utc''))"
  proof (intro ballI impI)
    fix r assume r: "r \<in> set (rows df)" "\<not> core_missing (columns df) (?T r)"
    then have "?K (?T r) \<in> ?K ` set ?kept" by auto
    then have "?K (?T r) \<in> ?K ` set (rows out)" unfolding S keep_first_keys by simp
    then obtain r' where r': "r' \<in> set (rows out)" "?K r' = ?K (?T r)" by auto
    from r'(2) have "r' ''datetime_utc'' = to_datetime parse_dt (r ''datetime_utc'')"
      unfolding key by (simp add: row_key_def)
    with r'(1) show "\<exists>r' \<in> set (rows out). r' ''datetime_utc'' = to_datetime parse_dt (r ''datetime_utc'')"
      by blast
  qed
  have P4: "distinct (map (\<lambda>r. to_datetime parse_dt (r ''datetime_utc'')) (rows df)) \<longrightarrow>
            mset (rows out) = mset ?kept"
  proof
    assume "distinct (map (\<lambda>r. to_datetime parse_dt (r ''datetime_utc'')) (rows df))"
    then have "distinct (map ?K (map ?T (rows df)))"
      by (simp add: comp_def key distinct_map inj_on_def)
    then have "distinct (map ?K ?kept)"
      by (simp add: distinct_map_filter)
    then have "keep_first ?K {} ?kept = ?kept" by (intro keep_first_id) simp_all
    with m show "mset (rows out) = mset ?kept" by simp
  qed
  note P0 = clean_openmeteo_positions[OF assms]
  from P0 m P2 P3 P4 show ?thesis by (intro conjI)
qed

theorem clean_openmeteo_drop_rule_witness:
  "\<exists>out. clean_openmeteo example_parse_dt example_parse_num openmeteo_obs = Inr out \<and>
     map (\<lambda>r. (r ''datetime_utc'', r ''temperature_2m'', r ''relative_humidity_2m'', r ''rain''))
         (rows out)
       = [(Time 1704067200, Num 20, NA, NA), (Time 1704074400, NA, Num 80, NA)] \<and>
     mset (rows out)
       = mset (map (\<lambda>i. openmeteo_row example_parse_dt example_parse_num (columns openmeteo_obs)
                             (rows openmeteo_obs ! i)) [0, 2]) \<and>
     (\<exists>r' \<in> set (rows out). r' ''datetime_utc'' = Time 1704074400)"
proof -
  have "map_sum id
          (\<lambda>out. map (\<lambda>r. (r ''datetime_utc'', r ''temperature_2m'', r ''relative_humidity_2m'', r ''rain''))
                      (rows out))
          (clean_openmeteo example_parse_dt example_parse_num openmeteo_obs)
      = Inr [(Time 1704067200, Num 20, NA, NA), (Time 1704074400, NA, Num 80, NA)]"
    by code_simp
  then obtain out where o: "clean_openmeteo example_parse_dt example_parse_num openmeteo_obs = Inr out"
    and v: "map (\<lambda>r. (r ''datetime_utc'', r ''temperature_2m'', r ''relative_humidity_2m'', r ''rain''))
                (rows out)
       = [(Time 1704067200, Num 20, NA, NA), (Time 1704074400, NA, Num 80, NA)]"
    by (cases "clean_openmeteo example_parse_dt example_parse_num openmeteo_obs") auto
  have r: "rows openmeteo_obs ! 2 \<in> set (rows openmeteo_obs)"
    by (rule nth_mem) (simp add: openmeteo_obs_def mk_frame_def)
  have n: "\<not> core_missing (columns openmeteo_obs)
               (openmeteo_row example_parse_dt example_parse_num (columns openmeteo_obs)
                  (rows openmeteo_obs ! 2))"
    "to_datetime example_parse_dt ((rows openmeteo_obs ! 2) ''datetime_utc'') = Time 1704074400"
    by code_simp+
  have p: "filter (\<lambda>i. \<not> openmeteo_dropped example_parse_dt example_parse_num openmeteo_obs i)
             [0..<length (rows openmeteo_obs)] = [0, 2]"
    by code_simp
  from clean_openmeteo_drop_rule[OF o]
  have k: "mset (rows out)
       = mset (map (\<lambda>i. openmeteo_row example_parse_dt example_parse_num (columns openmeteo_obs)
                             (rows openmeteo_obs ! i)) [0, 2])"
    unfolding p by blast
  from clean_openmeteo_drop_rule[OF o]
  have "\<forall>r \<in> set (rows openmeteo_obs).
          \<not> core_missing (columns openmeteo_obs)
               (openmeteo_row example_parse_dt example_parse_num (columns openmeteo_obs) r) \<longrightarrow>
          (\<exists>r' \<in> set (rows out).
             r' ''datetime_utc'' = to_datetime example_parse_dt (r ''datetime_utc''))"
    by blast
  from this[rule_format, OF r n(1)]
  have "\<exists>r' \<in> set (rows out). r' ''datetime_utc'' = Time 1704074400"
    unfolding n(2) .
  with o v k show ?thesis by (intro exI[of _ out]) simp
qed

text \<open>
  A row is dropped although its core fields are all present: of two rows with the same
  timestamp only the first is returned. And a row is dropped for a timestamp that does
  not parse: of two rows with complete core fields whose timestamps are the different
  texts foo and bar, both coerced to NaT, only the first is returned.
\<close>

theorem clean_openmeteo_duplicate_counterexample:
  "map_sum id (\<lambda>out. map (\<lambda>r. r ''temperature_2m'') (rows out))
     (clean_openmeteo example_parse_dt example_parse_num openmeteo_twice) = Inr [Num 20] \<and>
   map (\<lambda>r. (r ''temperature_2m'', r ''relative_humidity_2m'', r ''precipitation'',
               r ''wind_speed_10m'')) (rows openmeteo_twice)
     = [(Num 20, Num 70, Num 0, Num 3), (Num 21, Num 71, Num 0, Num 4)] \<and>
   map_sum id (\<lambda>out. map (\<lambda>r. (r ''datetime_utc'', r ''temperature_2m'')) (rows out))
     (clean_openmeteo example_parse_dt example_parse_num openmeteo_unparsed) = Inr [(NA, Num 20)] \<and>
   map (\<lambda>r. (r ''datetime_utc'', r ''temperature_2m'', r ''relative_humidity_2m'',
               r ''precipitation'', r ''wind_speed_10m'')) (rows openmeteo_unparsed)
     = [(Str ''foo'', Num 20, Num 70, Num 0, Num 3), (Str ''bar'', Num 21, Num 71, Num 0, Num 4)]"
  by code_simp

subsection \<open>Left joins followed by the removal of duplicate timestamps\<close>

lemma keep_first_drop_seen:
  "\<forall>y \<in> set ys. k y \<in> S \<Longrightarrow> keep_first k S (ys @ zs) = keep_first k S zs"
  by (induction ys) auto

lemma keep_first_groups:
  assumes "\<forall>x \<in> set xs. g x \<noteq> [] \<and> (\<forall>y \<in> set (g x). k' y = k x)"
  shows "keep_first k' S (concat (map g xs)) = map (\<lambda>x. hd (g x)) (keep_first k S xs)"
  using assms
proof (induction xs arbitrary: S)
  case Nil
  then show ?case by simp
next
  case (Cons x xs)
  from Cons.prems obtain y ys where g: "g x = y # ys" and ky: "k' y = k x"
    and kys: "\<forall>z \<in> set ys. k' z = k x"
    by (cases "g x") auto
  have IH: "\<And>S. keep_first k' S (concat (map g xs)) = map (\<lambda>x. hd (g x)) (keep_first k S xs)"
    using Cons by simp
  show ?case
  proof (cases "k x \<in> S")
    case True
    then have "\<forall>z \<in> set (g x). k' z \<in> S" using g ky kys by auto
    then show ?thesis using True IH by (simp add: keep_first_drop_seen)
  next
    case False
    have "\<forall>z \<in> set ys. k' z \<in> insert (k x) S" using kys by simp
    then have "keep_first k' (insert (k x) S) (ys @ concat (map g xs))
        = keep_first k' (insert (k x) S) (concat (map g xs))"
      by (rule keep_first_drop_seen)
    then show ?thesis using False g ky IH by simp
  qed
qed

lemma join_row_key:
  "key \<notin> set vcols \<Longrightarrow> join_row vcols l m key = l key"
  by (simp add: join_row_def)

lemma left_join_keep_first:
  assumes "left_join base_df add_df = Inr joined"
  shows "keep_first (row_key [''datetime_utc'']) S (rows joined)
       = map (join_first add_df) (keep_first (row_key [''datetime_utc'']) S (rows base_df))"
proof (cases "is_empty add_df")
  case True
  then have "joined = base_df" using assms by (simp add: left_join_def)
  moreover have "join_first add_df = (\<lambda>l. l)" using True by (simp add: join_first_def fun_eq_iff)
  ultimately show ?thesis by simp
next
  case False
  define vcols where "vcols = filter (\<lambda>c. c \<noteq> ''datetime_utc'') (columns add_df)"
  define g where "g = (\<lambda>l. case filter (\<lambda>m. m ''datetime_utc'' = l ''datetime_utc'') (rows add_df) of
                           [] \<Rightarrow> [join_row vcols l (\<lambda>c. NA)]
                         | ms \<Rightarrow> map (join_row vcols l) ms)"
  from assms False have r: "rows joined = concat (map g (rows base_df))"
    unfolding g_def vcols_def
    by (auto simp: left_join_def merge_left_def Let_def split: if_splits)
  have nk: "''datetime_utc'' \<notin> set vcols" by (simp add: vcols_def)
  have p: "g l \<noteq> [] \<and> (\<forall>y \<in> set (g l). row_key [''datetime_utc''] y = row_key [''datetime_utc''] l)
           \<and> hd (g l) = join_first add_df l" for l
    using False nk unfolding g_def
    by (cases "filter (\<lambda>m. m ''datetime_utc'' = l ''datetime_utc'') (rows add_df)")
       (auto simp: row_key_def join_row_key join_first_def first_match_def value_columns_def vcols_def)
  have "keep_first (row_key [''datetime_utc'']) S (concat (map g (rows base_df)))
      = map (\<lambda>x. hd (g x)) (keep_first (row_key [''datetime_utc'']) S (rows base_df))"
    by (rule keep_first_groups) (use p in blast)
  then show ?thesis unfolding r using p by simp
qed

lemma join_first_time [simp]: "join_first add_df l ''datetime_utc'' = l ''datetime_utc''"
  by (simp add: join_first_def join_row_def value_columns_def)

lemma join_first_other:
  "is_empty add_df \<or> c \<notin> set (value_columns add_df) \<Longrightarrow> join_first add_df l c = l c"
  by (auto simp: join_first_def join_row_def)

lemma join_first_own:
  "\<not> is_empty add_df \<Longrightarrow> c \<in> set (value_columns add_df) \<Longrightarrow>
     join_first add_df l c = first_match (l ''datetime_utc'') add_df c"
  by (simp add: join_first_def join_row_def)

lemma fold_join_first_time [simp]: "fold join_first fs l ''datetime_utc'' = l ''datetime_utc''"
  by (induction fs arbitrary: l) simp_all

lemma fold_join_first_other:
  "\<forall>f \<in> set fs. is_empty f \<or> c \<notin> set (value_columns f) \<Longrightarrow> fold join_first fs l c = l c"
  by (induction fs arbitrary: l) (simp_all add: join_first_other)

lemma fold_join_first_own:
  assumes "\<not> is_empty src" "c \<in> set (value_columns src)"
    and "\<forall>f \<in> set post. is_empty f \<or> c \<notin> set (value_columns f)"
  shows "fold join_first (pre @ src # post) l c = first_match (l ''datetime_utc'') src c"
  using assms by (simp add: fold_join_first_other join_first_own)

subsection \<open>The grid is strictly increasing\<close>

lemma date_range_sorted: "date_range s e = Inr idx \<Longrightarrow> sorted_wrt (<) idx"
proof (cases s; cases e)
  fix a b assume "date_range s e = Inr idx" "s = Some a" "e = Some b"
  then have idx: "idx = map (\<lambda>k. a + hour * int k) [0..<nat ((b - a) div hour + 1)]" by simp
  show ?thesis unfolding idx sorted_wrt_iff_nth_less by (simp add: hour_def)
qed simp_all

lemma build_hourly_index_sorted: "build_hourly_index fs = Inr idx \<Longrightarrow> sorted_wrt (<) idx"
  unfolding build_hourly_index_def by (auto simp: bind_eq_Inr dest: date_range_sorted)

subsection \<open>The merged table\<close>

lemma prepare_all_Inr:
  "prepare_all parse_dt files = Inr fs \<Longrightarrow>
     \<exists>a b c d e. fs = [a, b, c, d, e] \<and>
       prep_aqs (aqs (load_all parse_dt files)) = Inr a \<and>
       prep_airnow (airnow (load_all parse_dt files)) = Inr b \<and>
       prep_purpleair (purpleair (load_all parse_dt files)) = Inr c \<and>
       prep_openmeteo (openmeteo (load_all parse_dt files)) = Inr d \<and>
       prep_hvo (hvo (load_all parse_dt files)) = Inr e"
  unfolding prepare_all_def Let_def by (auto simp: bind_eq_Inr)

lemma sort_key_sorted_id: "sorted_wrt (<) (map f xs) \<Longrightarrow> sort_key f xs = xs"
  for f :: "'a \<Rightarrow> int"
  by (rule sort_key_id_if_sorted) (simp add: strict_sorted_imp_sorted)

lemma merge_all_rows:
  assumes "merge_all parse_dt files = Inr merged"
  obtains fs idx where "prepare_all parse_dt files = Inr fs"
    and "build_hourly_index fs = Inr idx"
    and "rows merged = map (\<lambda>t. fold join_first fs ((\<lambda>c. NA)(''datetime_utc'' := Time t))) idx"
proof -
  let ?K = "row_key [''datetime_utc'']"
  from assms obtain a b c d e idx j1 j2 j3 j4 j5 dd where
    pa: "prep_aqs (aqs (load_all parse_dt files)) = Inr a"
    and pb: "prep_airnow (airnow (load_all parse_dt files)) = Inr b"
    and pc: "prep_purpleair (purpleair (load_all parse_dt files)) = Inr c"
    and pd: "prep_openmeteo (openmeteo (load_all parse_dt files)) = Inr d"
    and pe: "prep_hvo (hvo (load_all parse_dt files)) = Inr e"
    and ix: "build_hourly_index [a, b, c, d, e] = Inr idx"
    and j1: "left_join (grid_frame idx) a = Inr j1"
    and j2: "left_join j1 b = Inr j2"
    and j3: "left_join j2 c = Inr j3"
    and j4: "left_join j3 d = Inr j4"
    and j5: "left_join j4 e = Inr j5"
    and dd: "drop_duplicates [''datetime_utc''] j5 = Inr dd"
    and so: "sort_values ''datetime_utc'' dd = Inr merged"
    unfolding merge_all_def Let_def by (auto simp: bind_eq_Inr)
  have prep: "prepare_all parse_dt files = Inr [a, b, c, d, e]"
    unfolding prepare_all_def Let_def by (simp add: pa pb pc pd pe)
  note srt = build_hourly_index_sorted[OF ix]
  then have dist: "distinct idx" by (simp add: strict_sorted_iff)
  let ?base = "map (\<lambda>t. (\<lambda>c. NA)(''datetime_utc'' := Time t)) idx"
  have kb: "map ?K ?base = map (\<lambda>t. [Time t]) idx"
    by (simp add: row_key_def comp_def)
  have "distinct (map ?K ?base)" unfolding kb using dist by (simp add: distinct_map inj_on_def)
  then have base: "keep_first ?K {} (rows (grid_frame idx)) = ?base"
    by (simp add: grid_frame_def keep_first_id)
  have "rows dd = keep_first ?K {} (rows j5)"
    using drop_duplicates_Inr[OF dd] by simp
  also have "\<dots> = map (join_first e) (map (join_first d) (map (join_first c)
                 (map (join_first b) (map (join_first a) ?base))))"
    unfolding left_join_keep_first[OF j5] left_join_keep_first[OF j4] left_join_keep_first[OF j3]
      left_join_keep_first[OF j2] left_join_keep_first[OF j1] base ..
  also have "\<dots> = map (\<lambda>t. fold join_first [a, b, c, d, e] ((\<lambda>c. NA)(''datetime_utc'' := Time t))) idx"
    by (simp add: comp_def)
  finally have rdd: "rows dd
      = map (\<lambda>t. fold join_first [a, b, c, d, e] ((\<lambda>c. NA)(''datetime_utc'' := Time t))) idx" .
  have tm: "map (\<lambda>r. r ''datetime_utc'') (rows dd) = map Time idx"
    unfolding rdd by (simp add: comp_def)
  have all_time: "\<forall>r \<in> set (rows dd). is_time (r ''datetime_utc'')"
    unfolding rdd by simp
  have "map (\<lambda>r. the_time (r ''datetime_utc'')) (rows dd) = map the_time (map (\<lambda>r. r ''datetime_utc'') (rows dd))"
    by (simp add: comp_def)
  also have "\<dots> = idx" unfolding tm by (simp add: comp_def)
  finally have keys: "map (\<lambda>r. the_time (r ''datetime_utc'')) (rows dd) = idx" .
  have "rows merged = sort_key (\<lambda>r. the_time (r ''datetime_utc''))
                        (filter (\<lambda>r. is_time (r ''datetime_utc'')) (rows dd))
                      @ filter (\<lambda>r. \<not> is_time (r ''datetime_utc'')) (rows dd)"
    using so by (auto simp: sort_values_def split: if_splits)
  also have "filter (\<lambda>r. is_time (r ''datetime_utc'')) (rows dd) = rows dd"
    using all_time by (simp add: filter_id_conv)
  also have "filter (\<lambda>r. \<not> is_time (r ''datetime_utc'')) (rows dd) = []"
    using all_time by (simp add: filter_empty_conv)
  also have "sort_key (\<lambda>r. the_time (r ''datetime_utc'')) (rows dd) = rows dd"
    by (rule sort_key_sorted_id) (simp only: keys srt)
  finally have "rows merged = rows dd" by simp
  with rdd prep ix that show ?thesis by simp
qed

text \<open>
  Claim C3. Whenever \<open>merge_all\<close> returns a table, its \<open>datetime_utc\<close> column is the grid
  built from the prepared frames, hour by hour: one row for every grid timestamp, none
  twice, and as many rows as the grid is long, however many rows a source has at one
  timestamp.
\<close>

theorem merge_all_one_row_per_hour:
  assumes "merge_all parse_dt files = Inr merged"
  shows "\<exists>fs idx. prepare_all parse_dt files = Inr fs \<and> build_hourly_index fs = Inr idx \<and>
           map (\<lambda>r. r ''datetime_utc'') (rows merged) = map Time idx \<and>
           length (rows merged) = length idx \<and> distinct idx"
proof -
  from merge_all_rows[OF assms] obtain fs idx where
    p: "prepare_all parse_dt files = Inr fs"
    and i: "build_hourly_index fs = Inr idx"
    and r: "rows merged = map (\<lambda>t. fold join_first fs ((\<lambda>c. NA)(''datetime_utc'' := Time t))) idx"
    by blast
  have "map (\<lambda>r. r ''datetime_utc'') (rows merged) = map Time idx"
    unfolding r by (simp add: comp_def)
  moreover have "length (rows merged) = length idx" unfolding r by simp
  moreover have "distinct idx"
    using build_hourly_index_sorted[OF i] by (simp add: strict_sorted_iff)
  ultimately show ?thesis using p i by blast
qed

theorem merge_all_one_row_per_hour_witness:
  "\<exists>merged. merge_all example_parse_dt interim_example = Inr merged \<and>
     map (\<lambda>r. r ''datetime_utc'') (rows merged)
       = [Time 1704067200, Time 1704070800, Time 1704074400] \<and>
     (\<exists>fs. prepare_all example_parse_dt interim_example = Inr fs \<and>
        build_hourly_index fs = Inr [1704067200, 1704070800, 1704074400]) \<and>
     length (rows merged) = 3"
proof -
  have "map_sum id (\<lambda>m. map (\<lambda>r. r ''datetime_utc'') (rows m))
          (merge_all example_parse_dt interim_example)
      = Inr [Time 1704067200, Time 1704070800, Time 1704074400]"
    by code_simp
  then obtain merged where o: "merge_all example_parse_dt interim_example = Inr merged"
    and t: "map (\<lambda>r. r ''datetime_utc'') (rows merged)
              = [Time 1704067200, Time 1704070800, Time 1704074400]"
    by (cases "merge_all example_parse_dt interim_example") auto
  from merge_all_one_row_per_hour[OF o] obtain fs idx where
    p: "prepare_all example_parse_dt interim_example = Inr fs"
    and i: "build_hourly_index fs = Inr idx"
    and m: "map (\<lambda>r. r ''datetime_utc'') (rows merged) = map Time idx"
    and l: "length (rows merged) = length idx"
    by blast
  from m t have "map Time idx = map Time [1704067200, 1704070800, 1704074400]" by simp
  moreover have "inj Time" by (simp add: inj_def)
  ultimately have idx: "idx = [1704067200, 1704070800, 1704074400]"
    by (simp only: inj_map_eq_map)
  show ?thesis
    using o t p i l unfolding idx by (intro exI[of _ merged] conjI exI[of _ fs]) simp_all
qed

subsection \<open>Value columns of the prepared frames\<close>

lemma select_columns_Inr:
  "select_columns cs df = Inr out \<Longrightarrow> columns out = cs \<and> length (rows out) = length (rows df)"
  by (auto simp: select_columns_def split: list.splits)

lemma is_empty_iff: "is_empty df \<longleftrightarrow> columns df = [] \<or> rows df = []"
  by (simp add: is_empty_def)

lemma prep_aqs_columns:
  assumes "prep_aqs df = Inr out" "\<not> is_empty out"
  shows "value_columns out = [''pm25_aqs'']"
proof -
  from assms have ne: "\<not> is_empty df" by (auto simp: prep_aqs_def split: if_splits)
  with assms(1) obtain sel where s: "select_columns [''datetime_utc'', ''sample_measurement''] df = Inr sel"
    and o: "out = rename_column ''sample_measurement'' ''pm25_aqs'' sel"
    by (auto simp: prep_aqs_def bind_eq_Inr)
  from select_columns_Inr[OF s] show ?thesis
    unfolding o by (simp add: value_columns_def rename_column_def)
qed

lemma prep_airnow_columns:
  assumes "prep_airnow df = Inr out" "\<not> is_empty out"
  shows "value_columns out = [''aqi_airnow'']"
proof -
  from assms have ne: "\<not> is_empty df" by (auto simp: prep_airnow_def split: if_splits)
  with assms(1) obtain sel where s: "select_columns [''datetime_utc'', ''AQI''] df = Inr sel"
    and o: "out = rename_column ''AQI'' ''aqi_airnow'' sel"
    by (auto simp: prep_airnow_def bind_eq_Inr)
  from select_columns_Inr[OF s] show ?thesis
    unfolding o by (simp add: value_columns_def rename_column_def)
qed

lemma prep_purpleair_columns:
  assumes "prep_purpleair df = Inr out" "\<not> is_empty out"
  shows "value_columns out = [''pm25_purpleair'', ''humidity'', ''temperature'', ''pressure'']"
proof -
  from assms have ne: "\<not> is_empty df" by (auto simp: prep_purpleair_def split: if_splits)
  with assms(1) obtain sel where
    s: "select_columns [''datetime_utc'', ''pm2.5_atm'', ''humidity'', ''temperature'', ''pressure''] df
          = Inr sel"
    and o: "out = rename_column ''pm2.5_atm'' ''pm25_purpleair'' sel"
    by (auto simp: prep_purpleair_def bind_eq_Inr)
  from select_columns_Inr[OF s] show ?thesis
    unfolding o by (simp add: value_columns_def rename_column_def)
qed

lemma prep_openmeteo_columns:
  assumes "prep_openmeteo df = Inr out" "\<not> is_empty out"
  shows "value_columns out = [''temperature_2m'', ''relative_humidity_2m'', ''precipitation'',
           ''rain'', ''wind_speed_10m'', ''wind_direction_10m'', ''wind_gusts_10m'']"
proof -
  from assms have ne: "\<not> is_empty df" by (auto simp: prep_openmeteo_def split: if_splits)
  with assms(1) have "select_columns [''datetime_utc'', ''temperature_2m'', ''relative_humidity_2m'',
                           ''precipitation'', ''rain'', ''wind_speed_10m'',
                           ''wind_direction_10m'', ''wind_gusts_10m''] df = Inr out"
    by (simp add: prep_openmeteo_def)
  from select_columns_Inr[OF this] show ?thesis
    by (simp add: value_columns_def)
qed

lemma prep_hvo_columns:
  assumes "prep_hvo df = Inr out" "\<not> is_empty out"
  shows "value_columns out = [''alertLevel'', ''colorCode'', ''alert_change'', ''color_change'']"
proof -
  from assms have ne: "\<not> is_empty df" by (auto simp: prep_hvo_def split: if_splits)
  with assms(1) have "select_columns [''datetime_utc'', ''alertLevel'', ''colorCode'',
                           ''alert_change'', ''color_change''] df = Inr out"
    by (simp add: prep_hvo_def)
  from select_columns_Inr[OF this] show ?thesis
    by (simp add: value_columns_def)
qed

lemma prepared_value_columns:
  assumes "prepare_all parse_dt files = Inr [a, b, c, d, e]"
  shows "is_empty a \<or> value_columns a = [''pm25_aqs'']"
    and "is_empty b \<or> value_columns b = [''aqi_airnow'']"
    and "is_empty c \<or> value_columns c = [''pm25_purpleair'', ''humidity'', ''temperature'', ''pressure'']"
    and "is_empty d \<or> value_columns d = [''temperature_2m'', ''relative_humidity_2m'', ''precipitation'',
           ''rain'', ''wind_speed_10m'', ''wind_direction_10m'', ''wind_gusts_10m'']"
    and "is_empty e \<or> value_columns e = [''alertLevel'', ''colorCode'', ''alert_change'', ''color_change'']"
proof -
  from prepare_all_Inr[OF assms] have
    pa: "prep_aqs (aqs (load_all parse_dt files)) = Inr a"
    and pb: "prep_airnow (airnow (load_all parse_dt files)) = Inr b"
    and pc: "prep_purpleair (purpleair (load_all parse_dt files)) = Inr c"
    and pd: "prep_openmeteo (openmeteo (load_all parse_dt files)) = Inr d"
    and pe: "prep_hvo (hvo (load_all parse_dt files)) = Inr e"
    by simp_all
  show "is_empty a \<or> value_columns a = [''pm25_aqs'']"
    using prep_aqs_columns[OF pa] by blast
  show "is_empty b \<or> value_columns b = [''aqi_airnow'']"
    using prep_airnow_columns[OF pb] by blast
  show "is_empty c \<or> value_columns c = [''pm25_purpleair'', ''humidity'', ''temperature'', ''pressure'']"
    using prep_purpleair_columns[OF pc] by blast
  show "is_empty d \<or> value_columns d = [''temperature_2m'', ''relative_humidity_2m'', ''precipitation'',
           ''rain'', ''wind_speed_10m'', ''wind_direction_10m'', ''wind_gusts_10m'']"
    using prep_openmeteo_columns[OF pd] by blast
  show "is_empty e \<or> value_columns e = [''alertLevel'', ''colorCode'', ''alert_change'', ''color_change'']"
    using prep_hvo_columns[OF pe] by blast
qed

lemma merged_row_values:
  assumes "prepare_all parse_dt files = Inr fs" "src \<in> set fs" "\<not> is_empty src"
    "col \<in> set (value_columns src)" "l ''datetime_utc'' = t"
  shows "fold join_first fs l col = first_match t src col"
proof -
  from prepare_all_Inr[OF assms(1)] obtain a b c d e where fs: "fs = [a, b, c, d, e]" by blast
  note V = prepared_value_columns[OF assms(1)[unfolded fs]]
  from assms(2) fs consider "src = a" | "src = b" | "src = c" | "src = d" | "src = e" by auto
  then show ?thesis
  proof cases
    case 1
    have "\<forall>f \<in> set [b, c, d, e]. is_empty f \<or> col \<notin> set (value_columns f)"
      using V assms(3,4) unfolding 1 by auto
    from fold_join_first_own[OF assms(3,4) this, of "[]" l] show ?thesis
      unfolding fs 1 assms(5)[symmetric] by simp
  next
    case 2
    have "\<forall>f \<in> set [c, d, e]. is_empty f \<or> col \<notin> set (value_columns f)"
      using V assms(3,4) unfolding 2 by auto
    from fold_join_first_own[OF assms(3,4) this, of "[a]" l] show ?thesis
      unfolding fs 2 assms(5)[symmetric] by simp
  next
    case 3
    have "\<forall>f \<in> set [d, e]. is_empty f \<or> col \<notin> set (value_columns f)"
      using V assms(3,4) unfolding 3 by auto
    from fold_join_first_own[OF assms(3,4) this, of "[a, b]" l] show ?thesis
      unfolding fs 3 assms(5)[symmetric] by simp
  next
    case 4
    have "\<forall>f \<in> set [e]. is_empty f \<or> col \<notin> set (value_columns f)"
      using V assms(3,4) unfolding 4 by auto
    from fold_join_first_own[OF assms(3,4) this, of "[a, b, c]" l] show ?thesis
      unfolding fs 4 assms(5)[symmetric] by simp
  next
    case 5
    have "\<forall>f \<in> set []. is_empty f \<or> col \<notin> set (value_columns f)" by simp
    from fold_join_first_own[OF assms(3,4) this, of "[a, b, c, d]" l] show ?thesis
      unfolding fs 5 assms(5)[symmetric] by simp
  qed
qed

text \<open>
  Claim C10. Whenever \<open>merge_all\<close> returns a table, the row of a grid hour holds, in the
  value columns of every non-empty source, the cells of the first row that source has at
  that hour (missing cells when it has none). Further rows of the source at the same
  hour leave no trace: nothing is aggregated.
\<close>

theorem merge_all_first_row_wins:
  assumes "merge_all parse_dt files = Inr merged"
  shows "\<exists>fs idx. prepare_all parse_dt files = Inr fs \<and> build_hourly_index fs = Inr idx \<and>
           map (\<lambda>r. r ''datetime_utc'') (rows merged) = map Time idx \<and>
           (\<forall>i < length idx. \<forall>src \<in> set fs. \<not> is_empty src \<longrightarrow>
              (\<forall>col \<in> set (value_columns src).
                 (rows merged ! i) col = first_match (Time (idx ! i)) src col))"
proof -
  from merge_all_rows[OF assms] obtain fs idx where
    p: "prepare_all parse_dt files = Inr fs"
    and i: "build_hourly_index fs = Inr idx"
    and r: "rows merged = map (\<lambda>t. fold join_first fs ((\<lambda>c. NA)(''datetime_utc'' := Time t))) idx"
    by blast
  have t: "map (\<lambda>r. r ''datetime_utc'') (rows merged) = map Time idx"
    unfolding r by (simp add: comp_def)
  have v: "\<forall>i < length idx. \<forall>src \<in> set fs. \<not> is_empty src \<longrightarrow>
              (\<forall>col \<in> set (value_columns src).
                 (rows merged ! i) col = first_match (Time (idx ! i)) src col)"
  proof (intro allI impI ballI)
    fix i src col
    assume a: "i < length idx" "src \<in> set fs" "\<not> is_empty src" "col \<in> set (value_columns src)"
    have "(rows merged ! i) col = fold join_first fs ((\<lambda>c. NA)(''datetime_utc'' := Time (idx ! i))) col"
      unfolding r using a(1) by simp
    also have "\<dots> = first_match (Time (idx ! i)) src col"
      by (rule merged_row_values[OF p a(2,3,4)]) simp
    finally show "(rows merged ! i) col = first_match (Time (idx ! i)) src col" .
  qed
  from p i t v show ?thesis by blast
qed

theorem merge_all_first_row_wins_witness:
  "\<exists>merged a. merge_all example_parse_dt interim_example = Inr merged \<and>
     prep_aqs (aqs (load_all example_parse_dt interim_example)) = Inr a \<and>
     map (\<lambda>r. (r ''datetime_utc'', r ''pm25_aqs'')) (rows a)
       = [(Time 1704067200, Num 4), (Time 1704067200, Num 9), (Time 1704074400, Num 5)] \<and>
     map (\<lambda>r. (r ''datetime_utc'', r ''pm25_aqs'', r ''pm25_purpleair'', r ''aqi_airnow''))
         (rows merged)
       = [(Time 1704067200, Num 4, Num 3, NA), (Time 1704070800, NA, NA, Num 21),
          (Time 1704074400, Num 5, NA, NA)] \<and>
     (rows merged ! 0) ''pm25_aqs'' = first_match (Time 1704067200) a ''pm25_aqs''"
proof -
  have "map_sum id
          (\<lambda>m. map (\<lambda>r. (r ''datetime_utc'', r ''pm25_aqs'', r ''pm25_purpleair'', r ''aqi_airnow''))
                    (rows m))
          (merge_all example_parse_dt interim_example)
      = Inr [(Time 1704067200, Num 4, Num 3, NA), (Time 1704070800, NA, NA, Num 21),
             (Time 1704074400, Num 5, NA, NA)]"
    by code_simp
  then obtain merged where o: "merge_all example_parse_dt interim_example = Inr merged"
    and v: "map (\<lambda>r. (r ''datetime_utc'', r ''pm25_aqs'', r ''pm25_purpleair'', r ''aqi_airnow''))
                (rows merged)
       = [(Time 1704067200, Num 4, Num 3, NA), (Time 1704070800, NA, NA, Num 21),
          (Time 1704074400, Num 5, NA, NA)]"
    by (cases "merge_all example_parse_dt interim_example") auto
  have "map_sum id
          (\<lambda>a. (is_empty a, value_columns a, map (\<lambda>r. (r ''datetime_utc'', r ''pm25_aqs'')) (rows a)))
          (prep_aqs (aqs (load_all example_parse_dt interim_example)))
      = Inr (False, [''pm25_aqs''],
             [(Time 1704067200, Num 4), (Time 1704067200, Num 9), (Time 1704074400, Num 5)])"
    by code_simp
  then obtain a where a: "prep_aqs (aqs (load_all example_parse_dt interim_example)) = Inr a"
    and ne: "\<not> is_empty a" and vc: "value_columns a = [''pm25_aqs'']"
    and ra: "map (\<lambda>r. (r ''datetime_utc'', r ''pm25_aqs'')) (rows a)
       = [(Time 1704067200, Num 4), (Time 1704067200, Num 9), (Time 1704074400, Num 5)]"
    by (cases "prep_aqs (aqs (load_all example_parse_dt interim_example))") auto
  from merge_all_first_row_wins[OF o] obtain fs idx where
    p: "prepare_all example_parse_dt interim_example = Inr fs"
    and t: "map (\<lambda>r. r ''datetime_utc'') (rows merged) = map Time idx"
    and w: "\<forall>i < length idx. \<forall>src \<in> set fs. \<not> is_empty src \<longrightarrow>
              (\<forall>col \<in> set (value_columns src).
                 (rows merged ! i) col = first_match (Time (idx ! i)) src col)"
    by blast
  from prepare_all_Inr[OF p] a have mem: "a \<in> set fs" by auto
  have "map (\<lambda>r. r ''datetime_utc'') (rows merged)
      = map fst (map (\<lambda>r. (r ''datetime_utc'', r ''pm25_aqs'', r ''pm25_purpleair'', r ''aqi_airnow''))
                     (rows merged))"
    by (simp add: comp_def)
  then have "map Time idx = map Time [1704067200, 1704070800, 1704074400]"
    unfolding v t by simp
  moreover have "inj Time" by (simp add: inj_def)
  ultimately have idx: "idx = [1704067200, 1704070800, 1704074400]"
    by (simp only: inj_map_eq_map)
  from w[rule_format, of 0 a "''pm25_aqs''"] mem ne vc
  have "(rows merged ! 0) ''pm25_aqs'' = first_match (Time 1704067200) a ''pm25_aqs''"
    unfolding idx by simp
  with o a ra v show ?thesis by (intro exI[of _ merged] exI[of _ a]) simp
qed

subsection \<open>Archive updates\<close>

lemma columns_written [simp]: "columns (written df) = columns df"
  by (simp add: written_def)

lemma rows_written:
  "rows (written df) = map (\<lambda>r c. if c \<in> set (columns df) then r c else NA) (rows df)"
  by (simp add: written_def)

lemma written_idem: "written (written df) = written df"
  by (auto simp: written_def comp_def fun_eq_iff)

lemma columns_concat_frames:
  "set (columns (concat_frames a b)) = set (columns a) \<union> set (columns b)"
  by (auto simp: concat_frames_def)

lemma rows_concat_frames [simp]: "rows (concat_frames a b) = rows a @ rows b"
  by (simp add: concat_frames_def)

lemma concat_frames_absorb:
  "set (columns b) \<subseteq> set (columns a) \<Longrightarrow>
     concat_frames a b = \<lparr>columns = columns a, rows = rows a @ rows b\<rparr>"
  by (auto simp: concat_frames_def filter_empty_conv)

lemma fold_concat_frames_rows:
  "rows (fold (\<lambda>b a. concat_frames a b) dfs df) = rows df @ concat (map rows dfs)"
  by (induction dfs arbitrary: df) simp_all

lemma rows_concat_all: "rows (concat_all dfs) = concat (map rows dfs)"
  by (cases dfs) (simp_all add: empty_frame_def fold_concat_frames_rows)

lemma sort_values_sorted_rows:
  assumes "\<And>r. g r c = r c"
  shows "sort_key (\<lambda>r. the_time (r c))
           (filter (\<lambda>r. is_time (r c))
              (map g (sort_key (\<lambda>r. the_time (r c)) (filter (\<lambda>r. is_time (r c)) xs)
                      @ filter (\<lambda>r. \<not> is_time (r c)) xs)))
         @ filter (\<lambda>r. \<not> is_time (r c))
              (map g (sort_key (\<lambda>r. the_time (r c)) (filter (\<lambda>r. is_time (r c)) xs)
                      @ filter (\<lambda>r. \<not> is_time (r c)) xs))
       = map g (sort_key (\<lambda>r. the_time (r c)) (filter (\<lambda>r. is_time (r c)) xs)
                @ filter (\<lambda>r. \<not> is_time (r c)) xs)"
proof -
  let ?f = "\<lambda>r. the_time (r c)"
  let ?p = "\<lambda>r. is_time (r c)"
  let ?X1 = "sort_key ?f (filter ?p xs)"
  let ?X2 = "filter (\<lambda>r. \<not> ?p r) xs"
  have a: "filter ?p (map g (?X1 @ ?X2)) = map g ?X1"
    by (simp add: filter_map comp_def assms filter_empty_conv filter_id_conv)
  have b: "filter (\<lambda>r. \<not> ?p r) (map g (?X1 @ ?X2)) = map g ?X2"
    by (simp add: filter_map comp_def assms filter_empty_conv filter_id_conv)
  have "map ?f (map g ?X1) = map ?f ?X1" by (simp add: comp_def assms)
  then have "sorted (map ?f (map g ?X1))" by (simp only: sorted_sort_key)
  then have c: "sort_key ?f (map g ?X1) = map g ?X1" by (rule sort_key_id_if_sorted)
  show ?thesis unfolding a b c by simp
qed

lemma update_openmeteo_idempotent:
  assumes first: "update_openmeteo tz_aware new_data (Some stored) = Inr (Some archive)"
    and batch: "\<forall>df \<in> set new_data. \<forall>r \<in> set (rows df).
                  is_time (r ''datetime_utc'') \<or> r ''datetime_utc'' = NA"
  shows "update_openmeteo tz_aware new_data (Some archive) = Inr (Some archive)"
proof (cases "new_data = [] \<or> (\<forall>r \<in> set (rows stored). \<not> is_time (r ''datetime_utc''))")
  case True
  with first have "archive = stored"
    by (auto simp: update_openmeteo_def bind_eq_Inr split: if_splits)
  with first show ?thesis by simp
next
  case False
  let ?K = "row_key [''datetime_utc'']"
  let ?N = "concat_all new_data"
  from first False obtain D S where
    dtE: "''datetime_utc'' \<in> set (columns stored)"
    and te: "\<forall>r \<in> set (rows stored). is_time (r ''datetime_utc'') \<or> r ''datetime_utc'' = NA"
    and d: "drop_duplicates [''datetime_utc''] (concat_frames stored ?N) = Inr D"
    and tz: "\<not> (\<not> tz_aware \<and> (\<exists>r \<in> set (rows ?N). is_time (r ''datetime_utc'')))"
    and s: "sort_values ''datetime_utc'' D = Inr S"
    and a: "archive = written S"
    unfolding update_openmeteo_def Let_def
    by (auto simp: bind_eq_Inr split: if_splits)
  from False obtain r0 where r0: "r0 \<in> set (rows stored)" "is_time (r0 ''datetime_utc'')"
    by blast
  note D = drop_duplicates_Inr[OF d]
  have cS: "columns S = columns (concat_frames stored ?N)"
    using sort_values_Inr[OF s] D by simp
  have dtS: "''datetime_utc'' \<in> set (columns S)"
    using dtE unfolding cS columns_concat_frames by simp
  define \<rho> where "\<rho> = (\<lambda>r::row. \<lambda>c. if c \<in> set (columns S) then r c else NA)"
  have rho_dt: "\<And>r. \<rho> r ''datetime_utc'' = r ''datetime_utc''"
    using dtS by (simp add: \<rho>_def)
  have rho_key: "\<And>r. ?K (\<rho> r) = ?K r" by (simp add: row_key_def rho_dt)
  have rA: "rows archive = map \<rho> (rows S)" unfolding a rows_written \<rho>_def ..
  have cA: "columns archive = columns S" unfolding a by simp
  have rS: "rows S = sort_key (\<lambda>r. the_time (r ''datetime_utc''))
                       (filter (\<lambda>r. is_time (r ''datetime_utc'')) (rows D))
                     @ filter (\<lambda>r. \<not> is_time (r ''datetime_utc'')) (rows D)"
    using s by (auto simp: sort_values_def split: if_splits)
  have setS: "set (rows S) = set (rows D)" using sort_values_Inr[OF s] mset_eq_setD by blast
  have rD: "rows D = keep_first ?K {} (rows stored @ rows ?N)" using D by simp
  have tN: "\<forall>r \<in> set (rows ?N). is_time (r ''datetime_utc'') \<or> r ''datetime_utc'' = NA"
    using batch by (auto simp: rows_concat_all)
  have tA: "\<forall>r \<in> set (rows archive). is_time (r ''datetime_utc'') \<or> r ''datetime_utc'' = NA"
  proof
    fix r assume "r \<in> set (rows archive)"
    then obtain r1 where r1: "r1 \<in> set (rows S)" "r = \<rho> r1" unfolding rA by auto
    from r1(1) have "r1 \<in> set (rows stored @ rows ?N)"
      unfolding setS rD
      using keep_first_subset[of ?K "{}" "rows stored @ rows ?N"] by (rule rev_subsetD)
    with te tN have "is_time (r1 ''datetime_utc'') \<or> r1 ''datetime_utc'' = NA" by auto
    then show "is_time (r ''datetime_utc'') \<or> r ''datetime_utc'' = NA"
      unfolding r1(2) rho_dt .
  qed
  have dtA: "''datetime_utc'' \<in> set (columns archive)" unfolding cA by (rule dtS)
  have colsN: "set (columns ?N) \<subseteq> set (columns archive)"
    unfolding cA cS columns_concat_frames by simp
  have cf: "concat_frames archive ?N = \<lparr>columns = columns archive, rows = rows archive @ rows ?N\<rparr>"
    by (rule concat_frames_absorb[OF colsN])
  have keysA: "map ?K (rows archive) = map ?K (rows S)"
    unfolding rA by (simp add: comp_def rho_key)
  have "distinct (map ?K (rows D))" unfolding rD by (rule keep_first_distinct)
  then have "distinct (map ?K (rows S))"
    using sort_values_Inr[OF s] mset_distinct_map by blast
  then have distA: "distinct (map ?K (rows archive))" unfolding keysA .
  have "?K ` set (rows archive) = set (map ?K (rows archive))" by simp
  also have "\<dots> = ?K ` set (rows S)" unfolding keysA by simp
  also have "\<dots> = ?K ` set (rows stored @ rows ?N)"
    unfolding setS rD keep_first_keys by simp
  finally have keysetA: "?K ` set (rows archive) = ?K ` set (rows stored @ rows ?N)" .
  have instA: "\<not> (\<forall>r \<in> set (rows archive). \<not> is_time (r ''datetime_utc''))"
  proof -
    from r0(1) have "?K r0 \<in> ?K ` set (rows archive)" unfolding keysetA by simp
    then obtain r where r: "r \<in> set (rows archive)" "?K r = ?K r0" by auto
    from r(2) have "r ''datetime_utc'' = r0 ''datetime_utc''" by (simp add: row_key_def)
    with r0(2) have "is_time (r ''datetime_utc'')" by simp
    with r(1) show ?thesis by blast
  qed
  have kf: "keep_first ?K {} (rows archive @ rows ?N) = rows archive"
  proof -
    have 1: "keep_first ?K {} (rows archive) = rows archive"
      using distA by (intro keep_first_id) simp_all
    have "?K ` set (rows ?N) \<subseteq> {} \<union> ?K ` set (rows archive)"
      unfolding keysetA by auto
    then have 2: "keep_first ?K ({} \<union> ?K ` set (rows archive)) (rows ?N) = []"
      by (rule keep_first_seen)
    show ?thesis unfolding keep_first_append 1 2 by simp
  qed
  have d2: "drop_duplicates [''datetime_utc''] (concat_frames archive ?N) = Inr archive"
    unfolding cf using dtA by (simp add: drop_duplicates_def kf)
  have s2: "sort_values ''datetime_utc'' archive = Inr archive"
  proof -
    have "sort_key (\<lambda>r. the_time (r ''datetime_utc''))
             (filter (\<lambda>r. is_time (r ''datetime_utc'')) (rows archive))
           @ filter (\<lambda>r. \<not> is_time (r ''datetime_utc'')) (rows archive) = rows archive"
      unfolding rA rS by (rule sort_values_sorted_rows) (rule rho_dt)
    then show ?thesis using dtA by (simp add: sort_values_def)
  qed
  have w2: "written archive = archive" unfolding a by (rule written_idem)
  have nd: "new_data \<noteq> []" using False by simp
  have c2: "\<not> (\<exists>r \<in> set (rows archive). \<not> is_time (r ''datetime_utc'') \<and> r ''datetime_utc'' \<noteq> NA)"
    using tA by blast
  show ?thesis
    unfolding update_openmeteo_def Let_def option.case
    by (simp only: dtA c2 instA nd tz d2 s2 w2 if_False not_not bind_Inr simp_thms)
qed

lemma update_openmeteo_distinct:
  assumes first: "update_openmeteo tz_aware new_data (Some stored) = Inr (Some archive)"
    and fetched: "new_data \<noteq> []"
    and inst: "\<exists>r \<in> set (rows stored). is_time (r ''datetime_utc'')"
  shows "distinct (map (\<lambda>r. r ''datetime_utc'') (rows archive))"
proof -
  let ?K = "row_key [''datetime_utc'']"
  let ?N = "concat_all new_data"
  from first fetched inst obtain D S where
    dtE: "''datetime_utc'' \<in> set (columns stored)"
    and d: "drop_duplicates [''datetime_utc''] (concat_frames stored ?N) = Inr D"
    and s: "sort_values ''datetime_utc'' D = Inr S"
    and a: "archive = written S"
    unfolding update_openmeteo_def Let_def
    by (auto simp: bind_eq_Inr split: if_splits)
  note D = drop_duplicates_Inr[OF d]
  have cS: "columns S = columns (concat_frames stored ?N)"
    using sort_values_Inr[OF s] D by simp
  have dtS: "''datetime_utc'' \<in> set (columns S)"
    using dtE unfolding cS columns_concat_frames by simp
  have keysA: "map ?K (rows archive) = map ?K (rows S)"
    unfolding a rows_written using dtS by (simp add: comp_def row_key_def)
  have rD: "rows D = keep_first ?K {} (rows stored @ rows ?N)" using D by simp
  have "distinct (map ?K (rows D))" unfolding rD by (rule keep_first_distinct)
  then have "distinct (map ?K (rows S))"
    using sort_values_Inr[OF s] mset_distinct_map by blast
  then have "distinct (map ?K (rows archive))" unfolding keysA .
  moreover have "map ?K (rows archive) = map (\<lambda>c. [c]) (map (\<lambda>r. r ''datetime_utc'') (rows archive))"
    by (simp add: row_key_def comp_def)
  ultimately show ?thesis by (simp only: distinct_map) 
qed

lemma to_csv_append_Some:
  "columns (to_csv_append df (Some old)) = columns old \<and>
   length (rows (to_csv_append df (Some old))) = length (rows old) + length (rows df) \<and>
   take (length (rows old)) (rows (to_csv_append df (Some old))) = rows old"
  by (simp add: to_csv_append_def)

lemma log_status_appends:
  assumes "log_status record (Some old) = Inr (Some new)"
  shows "columns new = columns old \<and> length (rows new) = length (rows old) + 1 \<and>
         take (length (rows old)) (rows new) = rows old"
proof -
  from assms obtain flag where
    "new = to_csv_append \<lparr>columns = hvo_fields, rows = [record(''new_notice'' := Flag flag)]\<rparr> (Some old)"
    unfolding log_status_def Let_def by (auto simp: bind_eq_Inr)
  then show ?thesis using to_csv_append_Some[of _ old] by simp
qed

text \<open>
  A stored Open-Meteo archive whose timestamps carry no offset, or did not read as dates,
  makes the update fail when a chunk was fetched, and the file stays as it was.
\<close>

lemma update_openmeteo_unreadable_archive:
  "map_sum id (map_option columns)
     (update_openmeteo False [openmeteo_chunk] (Some openmeteo_archive))
     = Inl (TypeError ''Cannot compare tz-naive and tz-aware timestamps'') \<and>
   map_sum id (map_option columns)
     (update_openmeteo True [openmeteo_chunk]
        (Some (mk_frame [''datetime_utc'', ''temperature_2m''] [[Str ''yesterday'', Num 20]])))
     = Inl (TypeError ''unsupported operand types for +'')"
  by code_simp

text \<open>
  Claim C1, as the code has it. The Open-Meteo update is idempotent: when it has
  produced an archive from a stored file and fetched chunks whose timestamps are
  instants, running it again on that archive with the same chunks gives the same
  archive, and after an update that added chunks no two rows of the archive have the
  same timestamp. The second run is taken on the frame the first run wrote, which is
  what reading the written file back returns for timestamps and whole numbers. The
  AirNow, PurpleAir and HVO updates append what was fetched after the rows of the archive
  and remove nothing, so every run makes the archive longer by the batch.
\<close>

theorem archive_updates:
  "(\<forall>archive. update_openmeteo tz_aware new_data (Some stored) = Inr (Some archive) \<and>
       (\<forall>df \<in> set new_data. \<forall>r \<in> set (rows df).
           is_time (r ''datetime_utc'') \<or> r ''datetime_utc'' = NA) \<longrightarrow>
       update_openmeteo tz_aware new_data (Some archive) = Inr (Some archive) \<and>
       (new_data \<noteq> [] \<and> (\<exists>r \<in> set (rows stored). is_time (r ''datetime_utc'')) \<longrightarrow>
          distinct (map (\<lambda>r. r ''datetime_utc'') (rows archive)))) \<and>
   (rows batch \<noteq> [] \<longrightarrow>
      (\<exists>new. fst (append_day batch (Some old)) = Some new \<and> columns new = columns old \<and>
         length (rows new) = length (rows old) + length (rows batch) \<and>
         take (length (rows old)) (rows new) = rows old) \<and>
      (\<exists>new. append_sensor batch (Some old) = Some new \<and> columns new = columns old \<and>
         length (rows new) = length (rows old) + length (rows batch) \<and>
         take (length (rows old)) (rows new) = rows old)) \<and>
   (\<forall>new. log_status record (Some old) = Inr (Some new) \<longrightarrow>
      columns new = columns old \<and> length (rows new) = length (rows old) + 1 \<and>
      take (length (rows old)) (rows new) = rows old)"
proof (intro conjI allI impI)
  fix archive
  assume "update_openmeteo tz_aware new_data (Some stored) = Inr (Some archive) \<and>
       (\<forall>df \<in> set new_data. \<forall>r \<in> set (rows df).
           is_time (r ''datetime_utc'') \<or> r ''datetime_utc'' = NA)"
  then show "update_openmeteo tz_aware new_data (Some archive) = Inr (Some archive)"
    using update_openmeteo_idempotent by blast
next
  fix archive
  assume "update_openmeteo tz_aware new_data (Some stored) = Inr (Some archive) \<and>
       (\<forall>df \<in> set new_data. \<forall>r \<in> set (rows df).
           is_time (r ''datetime_utc'') \<or> r ''datetime_utc'' = NA)"
    and "new_data \<noteq> [] \<and> (\<exists>r \<in> set (rows stored). is_time (r ''datetime_utc''))"
  then show "distinct (map (\<lambda>r. r ''datetime_utc'') (rows archive))"
    using update_openmeteo_distinct[of tz_aware new_data stored archive] by blast
next
  assume "rows batch \<noteq> []"
  then show "\<exists>new. fst (append_day batch (Some old)) = Some new \<and> columns new = columns old \<and>
         length (rows new) = length (rows old) + length (rows batch) \<and>
         take (length (rows old)) (rows new) = rows old"
    using to_csv_append_Some[of batch old] by (simp add: append_day_def)
next
  assume "rows batch \<noteq> []"
  then show "\<exists>new. append_sensor batch (Some old) = Some new \<and> columns new = columns old \<and>
         length (rows new) = length (rows old) + length (rows batch) \<and>
         take (length (rows old)) (rows new) = rows old"
    using to_csv_append_Some[of batch old] by (simp add: append_sensor_def)
next
  fix new assume a: "log_status record (Some old) = Inr (Some new)"
  from log_status_appends[OF a]
  show "columns new = columns old" "length (rows new) = length (rows old) + 1"
    "take (length (rows old)) (rows new) = rows old" by simp_all
qed

theorem archive_updates_witness:
  "(\<exists>archive. update_openmeteo True [openmeteo_chunk] (Some openmeteo_archive)
        = Inr (Some archive) \<and>
      update_openmeteo True [openmeteo_chunk] (Some archive) = Inr (Some archive) \<and>
      distinct (map (\<lambda>r. r ''datetime_utc'') (rows archive)) \<and>
      map (\<lambda>r. (r ''datetime_utc'', r ''temperature_2m'')) (rows archive)
        = [(Time 1704067200, Num 20), (Time 1704070800, Num 21), (Time 1704074400, Num 23)]) \<and>
   (\<exists>new. fst (append_day airnow_day (Some airnow_archive)) = Some new \<and>
      length (rows new) = 2 \<and> take 1 (rows new) = rows airnow_archive) \<and>
   (\<exists>new. append_sensor purpleair_history (Some purpleair_archive) = Some new \<and>
      length (rows new) = 2 \<and> take 1 (rows new) = rows purpleair_archive) \<and>
   (\<exists>new. log_status hvo_record (Some hvo_archive) = Inr (Some new) \<and>
      length (rows new) = 2 \<and> take 1 (rows new) = rows hvo_archive)"
proof -
  have "map_sum id (map_option (\<lambda>f. map (\<lambda>r. (r ''datetime_utc'', r ''temperature_2m'')) (rows f)))
          (update_openmeteo True [openmeteo_chunk] (Some openmeteo_archive))
      = Inr (Some [(Time 1704067200, Num 20), (Time 1704070800, Num 21), (Time 1704074400, Num 23)])"
    by code_simp
  then obtain archive where
    u: "update_openmeteo True [openmeteo_chunk] (Some openmeteo_archive) = Inr (Some archive)"
    and ra: "map (\<lambda>r. (r ''datetime_utc'', r ''temperature_2m'')) (rows archive)
        = [(Time 1704067200, Num 20), (Time 1704070800, Num 21), (Time 1704074400, Num 23)]"
    by (cases "update_openmeteo True [openmeteo_chunk] (Some openmeteo_archive)")
       (auto simp: map_option_case split: option.splits)
  have b: "\<forall>df \<in> set [openmeteo_chunk]. \<forall>r \<in> set (rows df).
              is_time (r ''datetime_utc'') \<or> r ''datetime_utc'' = NA"
    by code_simp
  have i: "[openmeteo_chunk] \<noteq> [] \<and> (\<exists>r \<in> set (rows openmeteo_archive). is_time (r ''datetime_utc''))"
    by code_simp
  from archive_updates[of True "[openmeteo_chunk]" openmeteo_archive] u b i
  have u2: "update_openmeteo True [openmeteo_chunk] (Some archive) = Inr (Some archive) \<and>
            distinct (map (\<lambda>r. r ''datetime_utc'') (rows archive))"
    by blast
  have la: "length (rows airnow_archive) = 1" "length (rows airnow_day) = 1"
    "length (rows purpleair_archive) = 1" "length (rows purpleair_history) = 1"
    "length (rows hvo_archive) = 1"
    by (simp_all add: airnow_archive_def airnow_day_def purpleair_archive_def
          purpleair_history_def hvo_archive_def mk_frame_def)
  have ne: "rows airnow_day \<noteq> []" "rows purpleair_history \<noteq> []"
    by (simp_all add: airnow_day_def purpleair_history_def mk_frame_def)
  from archive_updates[of _ _ _ airnow_day airnow_archive] ne(1)
  have A: "\<exists>new. fst (append_day airnow_day (Some airnow_archive)) = Some new \<and>
      length (rows new) = 2 \<and> take 1 (rows new) = rows airnow_archive"
    unfolding la by (metis one_add_one)
  from archive_updates[of _ _ _ purpleair_history purpleair_archive] ne(2)
  have B: "\<exists>new. append_sensor purpleair_history (Some purpleair_archive) = Some new \<and>
      length (rows new) = 2 \<and> take 1 (rows new) = rows purpleair_archive"
    unfolding la by (metis one_add_one)
  have "map_sum id (map_option (\<lambda>f. length (rows f))) (log_status hvo_record (Some hvo_archive))
      = Inr (Some 2)"
    by code_simp
  then obtain hnew where h: "log_status hvo_record (Some hvo_archive) = Inr (Some hnew)"
    by (cases "log_status hvo_record (Some hvo_archive)")
       (auto simp: map_option_case split: option.splits)
  from archive_updates[of _ _ _ _ hvo_archive hvo_record] h
  have "length (rows hnew) = length (rows hvo_archive) + 1 \<and>
        take (length (rows hvo_archive)) (rows hnew) = rows hvo_archive"
    by blast
  then have C: "\<exists>new. log_status hvo_record (Some hvo_archive) = Inr (Some new) \<and>
      length (rows new) = 2 \<and> take 1 (rows new) = rows hvo_archive"
    using h unfolding la by (intro exI[of _ hnew]) simp
  have O: "\<exists>archive. update_openmeteo True [openmeteo_chunk] (Some openmeteo_archive)
        = Inr (Some archive) \<and>
      update_openmeteo True [openmeteo_chunk] (Some archive) = Inr (Some archive) \<and>
      distinct (map (\<lambda>r. r ''datetime_utc'') (rows archive)) \<and>
      map (\<lambda>r. (r ''datetime_utc'', r ''temperature_2m'')) (rows archive)
        = [(Time 1704067200, Num 20), (Time 1704070800, Num 21), (Time 1704074400, Num 23)]"
    using u u2 ra by (intro exI[of _ archive]) simp
  from O A B C show ?thesis by (intro conjI)
qed

text \<open>
  Running the AirNow, PurpleAir or HVO update twice with the same fetched rows does not
  give the archive that running it once gives: the fetched rows are there twice. The AQS
  update does not remove a fetched row whose station, date and hour the archive holds:
  the archive's \<open>date_local\<close> was read as a date (1704067200 is 2024-01-01 00:00 UTC),
  the fetched one is the text of the API, the two keys differ and the measurement of
  00:00 is stored twice.
\<close>

theorem append_twice_counterexample:
  "map_option (\<lambda>f. map (\<lambda>r. (r ''HourObserved'', r ''AQI'')) (rows f))
     (fst (append_day airnow_day (Some airnow_archive)))
     = Some [(Num 0, Num 21), (Num 1, Num 22)] \<and>
   map_option (\<lambda>f. map (\<lambda>r. (r ''HourObserved'', r ''AQI'')) (rows f))
     (fst (append_day airnow_day (fst (append_day airnow_day (Some airnow_archive)))))
     = Some [(Num 0, Num 21), (Num 1, Num 22), (Num 1, Num 22)] \<and>
   map_option (\<lambda>f. map (\<lambda>r. (r ''time_stamp'', r ''sensor_index'')) (rows f))
     (append_sensor purpleair_history (Some purpleair_archive))
     = Some [(Num 1704067200, Num 7), (Num 1704070800, Num 7)] \<and>
   map_option (\<lambda>f. map (\<lambda>r. (r ''time_stamp'', r ''sensor_index'')) (rows f))
     (append_sensor purpleair_history (append_sensor purpleair_history (Some purpleair_archive)))
     = Some [(Num 1704067200, Num 7), (Num 1704070800, Num 7), (Num 1704070800, Num 7)] \<and>
   map_sum id (map_option (\<lambda>f. map (\<lambda>r. (r ''timestamp_utc'', r ''noticeId'')) (rows f)))
     (log_status hvo_record (Some hvo_archive))
     = Inr (Some [(Str ''2024-01-01 00:00'', Str ''n1''), (Str ''2024-01-01 01:00'', Str ''n1'')]) \<and>
   map_sum id (map_option (\<lambda>f. map (\<lambda>r. (r ''timestamp_utc'', r ''noticeId'')) (rows f)))
     (bind (log_status hvo_record (Some hvo_archive)) (log_status hvo_record))
     = Inr (Some [(Str ''2024-01-01 00:00'', Str ''n1''), (Str ''2024-01-01 01:00'', Str ''n1''),
                  (Str ''2024-01-01 01:00'', Str ''n1'')]) \<and>
   map_sum id (\<lambda>(f, n). (map_option (\<lambda>f. map (\<lambda>r. (r ''site_number'', r ''date_local'',
                    r ''time_local'', r ''sample_measurement'')) (rows f)) f, n))
     (append_unique aqs_fetched (Some aqs_archive))
     = Inr (Some [(Num 1006, Time 1704067200, Str ''00:00'', Num 4),
                  (Num 1006, Str ''2024-01-01'', Str ''00:00'', Num 4),
                  (Num 1006, Str ''2024-01-01'', Str ''01:00'', Num 5)], 2)"
  by code_simp

end
